theory Spec2Isabelle
  imports Main
begin

section \<open>The message model consumed from package \<open>sip\<close>\<close>

text \<open>
  Modelled from the spec: the request, response and header types of package \<open>sip\<close>,
  whose declarations are missing (the spec lists them as a message model with accessors
  for the contact, from, to, call-id and route headers and a status classification).
  \<open>dialog_server.go\<close> uses them only through a handful of accessors. A message is its
  list of headers in the order they were appended. The headers this file looks into
  (From, To, Contact, Call-ID) keep their fields; every other header, Record-Route and
  the Route headers made by \<open>sip.NewHeader\<close> among them, is a name with its textual
  value.
\<close>

type_synonym uri = string

text \<open>\<open>sip.HeaderParams\<close> is a Go map from parameter name to value.\<close>

type_synonym params = "string \<rightharpoonup> string"

record name_addr =
  DisplayName :: string
  Address :: uri
  Params :: params

datatype header =
    FromHeader name_addr
  | ToHeader name_addr
  | ContactHeader name_addr
  | CallIDHeader string
  | NewHeader string string

record request =
  Method :: string
  Recipient :: uri
  req_headers :: "header list"
  Destination :: "string option"

record response =
  StatusCode :: int
  Reason :: string
  res_headers :: "header list"
  Body :: "string option"

text \<open>
  The typed accessors return a pointer that is nil when the message has no such header:
  an option. A message carries each of these headers once; the accessor reads the first.
\<close>

fun first_from :: "header list \<Rightarrow> name_addr option" where
  "first_from [] = None"
| "first_from (FromHeader a # hs) = Some a"
| "first_from (h # hs) = first_from hs"

fun first_to :: "header list \<Rightarrow> name_addr option" where
  "first_to [] = None"
| "first_to (ToHeader a # hs) = Some a"
| "first_to (h # hs) = first_to hs"

fun first_contact :: "header list \<Rightarrow> name_addr option" where
  "first_contact [] = None"
| "first_contact (ContactHeader a # hs) = Some a"
| "first_contact (h # hs) = first_contact hs"

fun first_callid :: "header list \<Rightarrow> string option" where
  "first_callid [] = None"
| "first_callid (CallIDHeader c # hs) = Some c"
| "first_callid (h # hs) = first_callid hs"

definition Contact :: "request \<Rightarrow> name_addr option" where
  "Contact req = first_contact (req_headers req)"

definition From :: "request \<Rightarrow> name_addr option" where
  "From req = first_from (req_headers req)"

definition To :: "request \<Rightarrow> name_addr option" where
  "To req = first_to (req_headers req)"

definition CallID :: "request \<Rightarrow> string option" where
  "CallID req = first_callid (req_headers req)"

definition res_From :: "response \<Rightarrow> name_addr option" where
  "res_From res = first_from (res_headers res)"

definition res_To :: "response \<Rightarrow> name_addr option" where
  "res_To res = first_to (res_headers res)"

definition res_CallID :: "response \<Rightarrow> string option" where
  "res_CallID res = first_callid (res_headers res)"

text \<open>
  \<open>GetHeaders(name)\<close> followed by \<open>Value()\<close> on each header found: the textual values of
  the headers of that name, in the order of the message.
\<close>

fun header_values :: "string \<Rightarrow> header list \<Rightarrow> string list" where
  "header_values n [] = []"
| "header_values n (NewHeader m v # hs) =
     (if m = n then v # header_values n hs else header_values n hs)"
| "header_values n (h # hs) = header_values n hs"

definition GetHeaders :: "request \<Rightarrow> string \<Rightarrow> string list" where
  "GetHeaders req n = header_values n (req_headers req)"

definition AppendHeader :: "request \<Rightarrow> header \<Rightarrow> request" where
  "AppendHeader req h = req\<lparr>req_headers := req_headers req @ [h]\<rparr>"

definition res_AppendHeader :: "response \<Rightarrow> header \<Rightarrow> response" where
  "res_AppendHeader res h = res\<lparr>res_headers := res_headers res @ [h]\<rparr>"

text \<open>\<open>sip.NewRequest(method, recipient)\<close>: a request with no header yet.\<close>

definition NewRequest :: "string \<Rightarrow> uri \<Rightarrow> request" where
  "NewRequest m u = \<lparr>Method = m, Recipient = u, req_headers = [], Destination = None\<rparr>"

text \<open>
  Modelled from the spec: the status classification of package \<open>sip\<close>, which is
  missing. A provisional response carries a non-final progress code, below 200; a
  successful one a code of the success class, from 200 to 299.
\<close>

definition IsProvisional :: "response \<Rightarrow> bool" where
  "IsProvisional res = (StatusCode res < 200)"

definition IsSuccess :: "response \<Rightarrow> bool" where
  "IsSuccess res = (200 \<le> StatusCode res \<and> StatusCode res < 300)"

section \<open>Errors\<close>

text \<open>
  The package's sentinel errors, \<open>ErrDialogResponse\<close> with the response it carries,
  \<open>errors.Join\<close>, the two \<open>fmt.Errorf\<close> messages of \<open>Bye\<close>, the errors handed over by the
  collaborators (transaction, context, transport), and a nil dereference, which in Go
  is a run-time panic and here one more error value.
\<close>

datatype error =
    ErrDialogInviteNoContact
  | ErrDialogOutsideDialog
  | ErrDialogDoesNotExists
  | ErrDialogCanceled
  | ErrDialogResponse response
  | Join error error
  | Errorf string
  | ErrNonMatchingID string string
  | External string
  | NilDereference

text \<open>\<open>errors.Is(e, target)\<close>: the error itself or one of the errors joined into it.\<close>

fun errors_Is :: "error \<Rightarrow> error \<Rightarrow> bool" where
  "errors_Is (Join a b) t = (Join a b = t \<or> errors_Is a t \<or> errors_Is b t)"
| "errors_Is e t = (e = t)"

section \<open>The termination-request builder\<close>

text \<open>
  The loop of \<open>newByeRequestUAS\<close> runs \<open>i\<close> from \<open>len(hdrs) - 1\<close> down to \<open>0\<close>; the
  second argument counts the entries not yet visited, so \<open>Suc i\<close> visits index \<open>i\<close>.
\<close>

fun append_routes :: "string list \<Rightarrow> nat \<Rightarrow> request \<Rightarrow> request" where
  "append_routes hdrs 0 bye = bye"
| "append_routes hdrs (Suc i) bye =
     append_routes hdrs i (AppendHeader bye (NewHeader ''Route'' (hdrs ! i)))"

text \<open>
  \<open>cont.Address\<close>, \<open>to.DisplayName\<close> and \<open>from.DisplayName\<close> dereference the pointers
  the accessors returned, in that order. A nil Call-ID is appended as it is and leaves
  the request without a Call-ID.
\<close>

definition newByeRequestUAS :: "request \<Rightarrow> response \<Rightarrow> error + request" where
  "newByeRequestUAS req res =
     (case Contact req of
        None \<Rightarrow> Inl NilDereference
      | Some cont \<Rightarrow>
          let bye = NewRequest ''BYE'' (Address cont);
              from = res_From res;
              to = res_To res;
              callid = res_CallID res
          in (case to of
                None \<Rightarrow> Inl NilDereference
              | Some t \<Rightarrow>
                  (case from of
                     None \<Rightarrow> Inl NilDereference
                   | Some f \<Rightarrow>
                       let newFrom = \<lparr>DisplayName = DisplayName t, Address = Address t,
                                      Params = Params t\<rparr>;
                           newTo = \<lparr>DisplayName = DisplayName f, Address = Address f,
                                    Params = Params f\<rparr>;
                           bye1 = AppendHeader bye (FromHeader newFrom);
                           bye2 = AppendHeader bye1 (ToHeader newTo);
                           bye3 = (case callid of
                                     None \<Rightarrow> bye2
                                   | Some c \<Rightarrow> AppendHeader bye2 (CallIDHeader c));
                           hdrs = GetHeaders req ''Record-Route''
                       in Inr (append_routes hdrs (length hdrs) bye3))))"

section \<open>What this file calls in package \<open>sip\<close>\<close>

text \<open>
  The functions of package \<open>sip\<close> that compute a dialog identity or build a response are
  not part of this file. The operations below take them as a parameter, so that each
  theorem holds for whatever these functions compute. \<open>RouteHostPort\<close> stands for
  \<open>bye.Route()\<close> followed, when the header is not nil, by \<open>rr.Address.HostPort()\<close>.
\<close>

record sip =
  MakeDialogIDFromRequest :: "request \<Rightarrow> error + string"
  MakeDialogIDFromResponse :: "response \<Rightarrow> error + string"
  MakeDialogID :: "string \<Rightarrow> string \<Rightarrow> string \<Rightarrow> string"
  NewResponseFromRequest :: "request \<Rightarrow> int \<Rightarrow> string \<Rightarrow> string option \<Rightarrow> response"
  RouteHostPort :: "request \<Rightarrow> string option"

text \<open>
  Modelled from the spec: the dialog states of package \<open>sip\<close>, whose declaration is
  missing. The spec orders them \<open>Init \<rightarrow> Established \<rightarrow> Confirmed \<rightarrow> Ended\<close>; the state
  is an \<open>atomic.Int32\<close> whose zero value is the initial state, and \<open>Bye\<close> compares
  states by \<open><\<close>.
\<close>

datatype DialogState =
    DialogStateInit
  | DialogStateEstablished
  | DialogStateConfirmed
  | DialogStateEnded

fun state_num :: "DialogState \<Rightarrow> nat" where
  "state_num DialogStateInit = 0"
| "state_num DialogStateEstablished = 1"
| "state_num DialogStateConfirmed = 2"
| "state_num DialogStateEnded = 3"

section \<open>Sessions, the registry and the trace of effects\<close>

text \<open>
  Modelled from the spec: the \<open>Dialog\<close> record embedded in a session (its declaration is
  missing): identity, setup request, setup response (a nil pointer until a response is
  written), lifecycle state, and the lifetime context with its cancel function.
  \<open>cancel_calls\<close> counts the calls of that cancel function; the context is done as soon
  as it is positive. \<open>inviteTx\<close> names the server transaction of the INVITE.
\<close>

record DialogServerSession =
  ID :: string
  InviteRequest :: request
  InviteResponse :: "response option"
  state :: DialogState
  cancel_calls :: nat
  inviteTx :: nat

text \<open>
  Everything an operation does besides returning is appended to a trace, in program
  order: the writes to the registry and to a state, and the calls on transactions and
  on the client together with what the collaborator answered.
\<close>

datatype event =
    Stored string nat
  | Deleted string
  | StateSet nat DialogState
  | Responded nat response "error option"
  | Terminated nat
  | Requested request "error + nat"
  | ClientTerminated nat

text \<open>
  Sessions are reached through pointers: \<open>sessions\<close> is the heap of session objects and
  a handle is an index into it. \<open>dialogs\<close> is the \<open>sync.Map\<close> of the server, from dialog
  identity to handle.
\<close>

record world =
  dialogs :: "string \<rightharpoonup> nat"
  contactHDR :: name_addr
  sessions :: "DialogServerSession list"
  trace :: "event list"

definition NewDialogServer :: "name_addr \<Rightarrow> world" where
  "NewDialogServer c = \<lparr>dialogs = Map.empty, contactHDR = c, sessions = [], trace = []\<rparr>"

definition emit :: "event \<Rightarrow> world \<Rightarrow> world" where
  "emit e w = w\<lparr>trace := trace w @ [e]\<rparr>"

definition loadDialog :: "world \<Rightarrow> string \<Rightarrow> nat option" where
  "loadDialog w i = dialogs w i"

definition Store :: "string \<Rightarrow> nat \<Rightarrow> world \<Rightarrow> world" where
  "Store i h w = emit (Stored i h) (w\<lparr>dialogs := (dialogs w)(i \<mapsto> h)\<rparr>)"

definition Delete :: "string \<Rightarrow> world \<Rightarrow> world" where
  "Delete i w = emit (Deleted i) (w\<lparr>dialogs := (dialogs w)(i := None)\<rparr>)"

definition update_session ::
  "nat \<Rightarrow> (DialogServerSession \<Rightarrow> DialogServerSession) \<Rightarrow> world \<Rightarrow> world" where
  "update_session h f w = w\<lparr>sessions := (sessions w)[h := f (sessions w ! h)]\<rparr>"

text \<open>
  Modelled from the spec: \<open>setState\<close> of the missing \<open>Dialog\<close> record. The spec has every
  transition an unconditional write of the state.
\<close>

definition setState :: "nat \<Rightarrow> DialogState \<Rightarrow> world \<Rightarrow> world" where
  "setState h st w = emit (StateSet h st) (update_session h (\<lambda>s. s\<lparr>state := st\<rparr>) w)"

definition Respond :: "nat \<Rightarrow> response \<Rightarrow> error option \<Rightarrow> world \<Rightarrow> world" where
  "Respond tx res r w = emit (Responded tx res r) w"

definition Terminate :: "nat \<Rightarrow> world \<Rightarrow> world" where
  "Terminate tx w = emit (Terminated tx) w"

section \<open>The registry: ReadInvite, ReadAck, ReadBye\<close>

definition ReadInvite :: "request \<Rightarrow> nat \<Rightarrow> world \<Rightarrow> (error + nat) \<times> world" where
  "ReadInvite req tx w =
     (case Contact req of
        None \<Rightarrow> (Inl ErrDialogInviteNoContact, w)
      | Some cont \<Rightarrow>
          (Inr (length (sessions w)),
           w\<lparr>sessions := sessions w @
                [\<lparr>ID = [], InviteRequest = req, InviteResponse = None,
                  state = DialogStateInit, cancel_calls = 0, inviteTx = tx\<rparr>]\<rparr>))"

definition ReadAck :: "sip \<Rightarrow> request \<Rightarrow> nat \<Rightarrow> world \<Rightarrow> error option \<times> world" where
  "ReadAck lib req tx w =
     (case MakeDialogIDFromRequest lib req of
        Inl err \<Rightarrow> (Some (Join ErrDialogOutsideDialog err), w)
      | Inr i \<Rightarrow>
          (case loadDialog w i of
             None \<Rightarrow> (Some ErrDialogDoesNotExists, w)
           | Some dt \<Rightarrow> (None, setState dt DialogStateConfirmed w)))"

definition Close :: "nat \<Rightarrow> world \<Rightarrow> error option \<times> world" where
  "Close h w =
     (if length (sessions w) \<le> h then (Some NilDereference, w)
      else (None, Delete (ID (sessions w ! h)) w))"

text \<open>
  \<open>r\<close> is what \<open>tx.Respond\<close> returns. The two deferred calls run last, in reverse order
  of their \<open>defer\<close> statements: \<open>dt.inviteTx.Terminate()\<close>, then \<open>dt.Close()\<close>.
\<close>

definition ReadBye ::
  "sip \<Rightarrow> request \<Rightarrow> nat \<Rightarrow> error option \<Rightarrow> world \<Rightarrow> error option \<times> world" where
  "ReadBye lib req tx r w =
     (case MakeDialogIDFromRequest lib req of
        Inl err \<Rightarrow> (Some err, w)
      | Inr i \<Rightarrow>
          (case loadDialog w i of
             None \<Rightarrow> (Some ErrDialogDoesNotExists, w)
           | Some dt \<Rightarrow>
               let res = NewResponseFromRequest lib req 200 ''OK'' None;
                   w1 = Respond tx res r w;
                   w2 = (case r of
                           Some err \<Rightarrow> w1
                         | None \<Rightarrow> setState dt DialogStateEnded w1);
                   w3 = Terminate (inviteTx (sessions w2 ! dt)) w2
               in (r, snd (Close dt w3))))"

section \<open>The session: WriteResponse\<close>

text \<open>
  The \<open>select\<close> of \<open>WriteResponse\<close> does not block. The parameter says which case the
  run-time took: a CANCEL received from \<open>tx.Cancels()\<close>, \<open>tx.Done()\<close> closed (with what
  \<open>tx.Err()\<close> returns), or \<open>default\<close>.
\<close>

datatype tx_select = SelCancel request | SelDone "error option" | SelDefault

text \<open>
  \<open>r\<close> is what the call of \<open>tx.Respond\<close> returns; each path calls it at most once, and
  the CANCEL path drops the result. A session method on a handle that points to no
  session is a nil dereference.
\<close>

definition WriteResponse ::
  "sip \<Rightarrow> nat \<Rightarrow> response \<Rightarrow> tx_select \<Rightarrow> error option \<Rightarrow> world \<Rightarrow> error option \<times> world"
  where
  "WriteResponse lib h res0 sel r w =
     (if length (sessions w) \<le> h then (Some NilDereference, w)
      else
        let tx = inviteTx (sessions w ! h);
            res = res_AppendHeader res0 (ContactHeader (contactHDR w));
            w1 = update_session h (\<lambda>s. s\<lparr>InviteResponse := Some res\<rparr>) w
        in (case sel of
              SelCancel req \<Rightarrow>
                (Some ErrDialogCanceled,
                 Respond tx (NewResponseFromRequest lib req 200 ''OK'' None) r w1)
            | SelDone err \<Rightarrow> (err, w1)
            | SelDefault \<Rightarrow>
                if \<not> IsSuccess res then
                  (if IsProvisional res then (r, Respond tx res r w1)
                   else
                     (case r of
                        Some err \<Rightarrow> (Some err, Respond tx res r w1)
                      | None \<Rightarrow> (None, setState h DialogStateEnded (Respond tx res r w1))))
                else
                  (case MakeDialogIDFromResponse lib res of
                     Inl err \<Rightarrow> (Some err, w1)
                   | Inr i \<Rightarrow>
                       let w2 = update_session h (\<lambda>s. s\<lparr>ID := i\<rparr>) w1;
                           w3 = Store i h w2;
                           w4 = setState h DialogStateEstablished w3;
                           w5 = Respond tx res r w4
                       in (case r of
                             Some err \<Rightarrow> (Some err, Delete i w5)
                           | None \<Rightarrow> (None, w5)))))"

section \<open>The session: Bye\<close>

text \<open>
  While \<open>Bye\<close> is blocked in its wait loop, other goroutines route inbound requests.
  A routing call is taken as one atomic step of the world.
\<close>

datatype router_call = AckCall request nat | ByeCall request nat "error option"

fun run_call :: "sip \<Rightarrow> world \<Rightarrow> router_call \<Rightarrow> world" where
  "run_call lib w (AckCall req tx) = snd (ReadAck lib req tx w)"
| "run_call lib w (ByeCall req tx r) = snd (ReadBye lib req tx r w)"

definition run_calls :: "sip \<Rightarrow> world \<Rightarrow> router_call list \<Rightarrow> world" where
  "run_calls lib w cs = foldl (run_call lib) w cs"

text \<open>
  One iteration of the wait loop blocks in a \<open>select\<close> until the run-time takes one of
  its cases: \<open>s.inviteTx.Done()\<close>, the timer \<open>time.After(sip.T1)\<close> (with the routing calls
  that ran meanwhile), or \<open>ctx.Done()\<close> (with what \<open>ctx.Err()\<close> returns). The list is what
  the environment delivers, in order; when it is used up the loop stays blocked.
\<close>

datatype wait_ev = InviteTxDone | TimerT1 "router_call list" | CtxDone error

datatype wait_result = Ready world | Cancelled error world | Blocked world

definition below_confirmed :: "world \<Rightarrow> nat \<Rightarrow> bool" where
  "below_confirmed w h =
     (state_num (state (sessions w ! h)) < state_num DialogStateConfirmed)"

fun wait_confirmed :: "sip \<Rightarrow> nat \<Rightarrow> world \<Rightarrow> wait_ev list \<Rightarrow> wait_result" where
  "wait_confirmed lib h w [] = (if below_confirmed w h then Blocked w else Ready w)"
| "wait_confirmed lib h w (ev # evs) =
     (if below_confirmed w h then
        (case ev of
           InviteTxDone \<Rightarrow> Ready w
         | TimerT1 cs \<Rightarrow> wait_confirmed lib h (run_calls lib w cs) evs
         | CtxDone err \<Rightarrow> Cancelled err w)
      else Ready w)"

text \<open>
  The last \<open>select\<close> of \<open>Bye\<close> blocks until the run-time takes one of its cases: a
  response read from \<open>tx.Responses()\<close>, \<open>tx.Done()\<close> (with \<open>tx.Err()\<close>), or \<open>ctx.Done()\<close>
  (with \<open>ctx.Err()\<close>).
\<close>

datatype await_ev = GotResponse response | ClientTxDone "error option" | AwaitCtxDone error

text \<open>\<open>p["tag"]\<close> on a Go map: the empty string when the key is missing.\<close>

definition tag_or_empty :: "name_addr \<Rightarrow> string" where
  "tag_or_empty a = (case Params a ''tag'' of None \<Rightarrow> [] | Some v \<Rightarrow> v)"

text \<open>
  Lines 257 to 293: from the building of the BYE to the last \<open>select\<close>, with the
  deferred \<open>tx.Terminate()\<close> of the client transaction. \<open>txr\<close> is what
  \<open>cli.TransactionRequest\<close> returns: an error, or the new client transaction.
\<close>

definition send_bye ::
  "sip \<Rightarrow> nat \<Rightarrow> request \<Rightarrow> response \<Rightarrow> error + nat \<Rightarrow> await_ev \<Rightarrow> world
     \<Rightarrow> error option \<times> world" where
  "send_bye lib h req res txr aw w =
     (case newByeRequestUAS req res of
        Inl err \<Rightarrow> (Some err, w)
      | Inr bye \<Rightarrow>
          (case CallID bye of
             None \<Rightarrow> (Some NilDereference, w)
           | Some callid \<Rightarrow>
               (case From bye of
                  None \<Rightarrow> (Some NilDereference, w)
                | Some newFrom \<Rightarrow>
                    (case To bye of
                       None \<Rightarrow> (Some NilDereference, w)
                     | Some newTo \<Rightarrow>
                         let byeID = MakeDialogID lib callid (tag_or_empty newFrom)
                                       (tag_or_empty newTo);
                             sid = ID (sessions w ! h)
                         in if sid \<noteq> byeID then (Some (ErrNonMatchingID sid byeID), w)
                            else
                              let bye' = (case RouteHostPort lib bye of
                                            None \<Rightarrow> bye
                                          | Some hp \<Rightarrow> bye\<lparr>Destination := Some hp\<rparr>);
                                  w1 = emit (Requested bye' txr) w
                              in (case txr of
                                    Inl err \<Rightarrow> (Some err, w1)
                                  | Inr tx \<Rightarrow>
                                      let (ret, w2) =
                                            (case aw of
                                               GotResponse r \<Rightarrow>
                                                 if StatusCode r \<noteq> 200
                                                 then (Some (ErrDialogResponse r), w1)
                                                 else (None, setState h DialogStateEnded w1)
                                             | ClientTxDone err \<Rightarrow> (err, w1)
                                             | AwaitCtxDone err \<Rightarrow> (Some err, w1))
                                      in (ret, emit (ClientTerminated tx) w2))))))"

text \<open>
  The two calls deferred at lines 233 and 234 run when \<open>Bye\<close> leaves, in reverse
  order: \<open>s.inviteTx.Terminate()\<close>, then \<open>s.Close()\<close>.
\<close>

definition bye_cleanup :: "nat \<Rightarrow> world \<Rightarrow> world" where
  "bye_cleanup h w = snd (Close h (Terminate (inviteTx (sessions w ! h)) w))"

datatype bye_outcome = Returned "error option" | NeverReturns

text \<open>
  \<open>req\<close> and \<open>res\<close> are read before the wait loop; \<open>s.ID\<close> is read after it. With no
  stored response \<open>res.IsSuccess()\<close> dereferences a nil pointer, before any \<open>defer\<close>.
\<close>

definition Bye ::
  "sip \<Rightarrow> nat \<Rightarrow> wait_ev list \<Rightarrow> error + nat \<Rightarrow> await_ev \<Rightarrow> world \<Rightarrow> bye_outcome \<times> world"
  where
  "Bye lib h waits txr aw w =
     (if length (sessions w) \<le> h then (Returned (Some NilDereference), w)
      else if state (sessions w ! h) = DialogStateEnded then (Returned None, w)
      else
        let req = InviteRequest (sessions w ! h) in
        (case InviteResponse (sessions w ! h) of
           None \<Rightarrow> (Returned (Some NilDereference), w)
         | Some res \<Rightarrow>
             if \<not> IsSuccess res then
               (Returned (Some (Errorf ''can not send bye on NON success response'')), w)
             else
               (case wait_confirmed lib h w waits of
                  Blocked w1 \<Rightarrow> (NeverReturns, w1)
                | Cancelled err w1 \<Rightarrow> (Returned (Some err), bye_cleanup h w1)
                | Ready w1 \<Rightarrow>
                    let (ret, w2) = send_bye lib h req res txr aw w1
                    in (Returned ret, bye_cleanup h w2))))"

section \<open>Sequences of operations\<close>

text \<open>
  An operation with everything its environment decides: the results of the sends, the
  cases the \<open>select\<close>s take, the events delivered to a waiting \<open>Bye\<close>.
\<close>

datatype op =
    OpReadInvite request nat
  | OpReadAck request nat
  | OpReadBye request nat "error option"
  | OpClose nat
  | OpWriteResponse nat response tx_select "error option"
  | OpBye nat "wait_ev list" "error + nat" await_ev

fun exec :: "sip \<Rightarrow> world \<Rightarrow> op \<Rightarrow> world" where
  "exec lib w (OpReadInvite req tx) = snd (ReadInvite req tx w)"
| "exec lib w (OpReadAck req tx) = snd (ReadAck lib req tx w)"
| "exec lib w (OpReadBye req tx r) = snd (ReadBye lib req tx r w)"
| "exec lib w (OpClose h) = snd (Close h w)"
| "exec lib w (OpWriteResponse h res sel r) = snd (WriteResponse lib h res sel r w)"
| "exec lib w (OpBye h waits txr aw) = snd (Bye lib h waits txr aw w)"

definition run :: "sip \<Rightarrow> world \<Rightarrow> op list \<Rightarrow> world" where
  "run lib w ops = foldl (exec lib) w ops"

text \<open>
  The use the protocol makes of a session: a final response (one that is not
  provisional) is written only while the session is still in its initial state.
\<close>

fun op_allowed :: "world \<Rightarrow> op \<Rightarrow> bool" where
  "op_allowed w (OpWriteResponse h res sel r) =
     (IsProvisional res \<or> length (sessions w) \<le> h \<or>
      state (sessions w ! h) = DialogStateInit)"
| "op_allowed w opn = True"

fun run_allowed :: "sip \<Rightarrow> world \<Rightarrow> op list \<Rightarrow> bool" where
  "run_allowed lib w [] = True"
| "run_allowed lib w (opn # ops) = (op_allowed w opn \<and> run_allowed lib (exec lib w opn) ops)"

text \<open>
  The registry invariant: whatever the registry holds under an identity is a session of
  the heap, carries that identity, and is established or confirmed.
\<close>

definition registry_inv :: "world \<Rightarrow> bool" where
  "registry_inv w =
     (\<forall>i h. dialogs w i = Some h \<longrightarrow>
        h < length (sessions w) \<and> ID (sessions w ! h) = i \<and>
        (state (sessions w ! h) = DialogStateEstablished \<or>
         state (sessions w ! h) = DialogStateConfirmed))"

definition registered :: "world \<Rightarrow> nat \<Rightarrow> bool" where
  "registered w h = (\<exists>i. dialogs w i = Some h)"

section \<open>Reading a trace\<close>

fun is_request :: "event \<Rightarrow> bool" where
  "is_request (Requested b x) = True"
| "is_request e = False"

text \<open>The calls of \<open>cli.TransactionRequest\<close> in a trace: the termination requests handed
  to the client.\<close>

definition requests :: "event list \<Rightarrow> event list" where
  "requests evs = filter is_request evs"

fun is_request_on :: "nat \<Rightarrow> event \<Rightarrow> bool" where
  "is_request_on tx (Requested b (Inr tx')) = (tx' = tx)"
| "is_request_on tx e = False"

text \<open>A call of \<open>cli.TransactionRequest\<close> returned the client transaction \<open>tx\<close>.\<close>

definition requested :: "nat \<Rightarrow> event list \<Rightarrow> bool" where
  "requested tx evs = list_ex (is_request_on tx) evs"

fun is_success_sent :: "event \<Rightarrow> bool" where
  "is_success_sent (Responded tx res None) = IsSuccess res"
| "is_success_sent e = False"

text \<open>Some successful response was sent: \<open>tx.Respond\<close> took it and returned nil.\<close>

definition success_sent :: "event list \<Rightarrow> bool" where
  "success_sent evs = list_ex is_success_sent evs"

fun calls_of :: "wait_ev \<Rightarrow> router_call list" where
  "calls_of (TimerT1 cs) = cs"
| "calls_of ev = []"

fun is_timer :: "wait_ev \<Rightarrow> bool" where
  "is_timer (TimerT1 cs) = True"
| "is_timer ev = False"

text \<open>The world after the routing calls that ran during the given waits.\<close>

definition after_waits :: "sip \<Rightarrow> world \<Rightarrow> wait_ev list \<Rightarrow> world" where
  "after_waits lib w evs = run_calls lib w (concat (map calls_of evs))"

section \<open>A concrete package \<open>sip\<close> and concrete messages\<close>

text \<open>
  Modelled from the spec: the identity functions and the response constructor of package
  \<open>sip\<close>, which are missing. The spec derives a dialog identity deterministically from
  the call identifier and the two tags, and has the computation fail when these
  correlation fields are insufficient; a response built from a request takes over its
  From, To, Call-ID and Record-Route headers. The concrete runs below use this instance.
\<close>

definition dialog_id :: "string \<Rightarrow> string \<Rightarrow> string \<Rightarrow> string" where
  "dialog_id c a b = c @ ''__'' @ a @ ''__'' @ b"

definition id_of_headers :: "header list \<Rightarrow> error + string" where
  "id_of_headers hs =
     (case first_callid hs of
        None \<Rightarrow> Inl (Errorf ''missing Call-ID header'')
      | Some c \<Rightarrow>
          (case first_to hs of
             None \<Rightarrow> Inl (Errorf ''missing To header'')
           | Some t \<Rightarrow>
               (case Params t ''tag'' of
                  None \<Rightarrow> Inl (Errorf ''missing tag param in To header'')
                | Some tt \<Rightarrow>
                    (case first_from hs of
                       None \<Rightarrow> Inl (Errorf ''missing From header'')
                     | Some f \<Rightarrow>
                         (case Params f ''tag'' of
                            None \<Rightarrow> Inl (Errorf ''missing tag param in From header'')
                          | Some ft \<Rightarrow> Inr (dialog_id c tt ft))))))"

fun copied :: "header \<Rightarrow> bool" where
  "copied (FromHeader a) = True"
| "copied (ToHeader a) = True"
| "copied (CallIDHeader c) = True"
| "copied (NewHeader n v) = (n = ''Record-Route'')"
| "copied (ContactHeader a) = False"

definition std_sip :: sip where
  "std_sip =
     \<lparr>MakeDialogIDFromRequest = (\<lambda>req. id_of_headers (req_headers req)),
      MakeDialogIDFromResponse = (\<lambda>res. id_of_headers (res_headers res)),
      MakeDialogID = dialog_id,
      NewResponseFromRequest =
        (\<lambda>req code reason body.
           \<lparr>StatusCode = code, Reason = reason,
            res_headers = filter copied (req_headers req), Body = body\<rparr>),
      RouteHostPort = (\<lambda>req. None)\<rparr>"

definition alice :: name_addr where
  "alice = \<lparr>DisplayName = ''Alice'', Address = ''sip:alice@a.example'',
            Params = [''tag'' \<mapsto> ''a1'']\<rparr>"

definition bob :: name_addr where
  "bob = \<lparr>DisplayName = ''Bob'', Address = ''sip:bob@b.example'',
          Params = [''tag'' \<mapsto> ''b1'']\<rparr>"

definition alice_contact :: name_addr where
  "alice_contact = \<lparr>DisplayName = [], Address = ''sip:alice@10.0.0.1'', Params = Map.empty\<rparr>"

definition bob_contact :: name_addr where
  "bob_contact = \<lparr>DisplayName = [], Address = ''sip:bob@10.0.0.2'', Params = Map.empty\<rparr>"

definition invite :: request where
  "invite =
     \<lparr>Method = ''INVITE'', Recipient = ''sip:bob@b.example'',
      req_headers =
        [FromHeader alice, ToHeader (bob\<lparr>Params := Map.empty\<rparr>), CallIDHeader ''c1'',
         ContactHeader alice_contact,
         NewHeader ''Record-Route'' ''<sip:p1.example;lr>'',
         NewHeader ''Record-Route'' ''<sip:p2.example;lr>'',
         NewHeader ''Record-Route'' ''<sip:p3.example;lr>''],
      Destination = None\<rparr>"

text \<open>A response to \<open>invite\<close> with the given status code, and requests inside the dialog
  it sets up.\<close>

definition answer :: "int \<Rightarrow> response" where
  "answer code =
     \<lparr>StatusCode = code, Reason = ''R'',
      res_headers = [FromHeader alice, ToHeader bob, CallIDHeader ''c1''], Body = None\<rparr>"

definition in_dialog :: "string \<Rightarrow> request" where
  "in_dialog m =
     \<lparr>Method = m, Recipient = ''sip:bob@10.0.0.2'',
      req_headers = [FromHeader alice, ToHeader bob, CallIDHeader ''c1''],
      Destination = None\<rparr>"

text \<open>A BYE whose Call-ID is missing: its dialog identity cannot be computed.\<close>

definition bye_without_callid :: request where
  "bye_without_callid =
     \<lparr>Method = ''BYE'', Recipient = ''sip:bob@10.0.0.2'',
      req_headers = [FromHeader alice, ToHeader bob], Destination = None\<rparr>"

definition server0 :: world where
  "server0 = NewDialogServer bob_contact"

text \<open>Worlds reached from the empty server: the INVITE read; then ringing; then a 200
  whose send failed; then a 200 that was sent; then the ACK routed.\<close>

definition invited0 :: world where
  "invited0 = run std_sip server0 [OpReadInvite invite 7]"

definition ringing0 :: world where
  "ringing0 = run std_sip server0
     [OpReadInvite invite 7, OpWriteResponse 0 (answer 180) SelDefault None]"

definition unsent0 :: world where
  "unsent0 = run std_sip server0
     [OpReadInvite invite 7,
      OpWriteResponse 0 (answer 200) SelDefault (Some (External ''broken pipe''))]"

definition established0 :: world where
  "established0 = run std_sip server0
     [OpReadInvite invite 7, OpWriteResponse 0 (answer 200) SelDefault None]"

definition confirmed0 :: world where
  "confirmed0 = run std_sip server0
     [OpReadInvite invite 7, OpWriteResponse 0 (answer 200) SelDefault None,
      OpReadAck (in_dialog ''ACK'') 8]"

section \<open>Unfolding the model\<close>

lemmas prim_defs = emit_def Store_def Delete_def update_session_def setState_def
  Respond_def Terminate_def loadDialog_def

lemmas msg_defs = Contact_def From_def To_def CallID_def res_From_def res_To_def
  res_CallID_def GetHeaders_def AppendHeader_def res_AppendHeader_def NewRequest_def
  IsProvisional_def IsSuccess_def

lemmas op_defs = ReadInvite_def ReadAck_def ReadBye_def Close_def WriteResponse_def
  Bye_def send_bye_def bye_cleanup_def newByeRequestUAS_def below_confirmed_def
  tag_or_empty_def run_calls_def run_def

lemmas fixture_defs = std_sip_def dialog_id_def id_of_headers_def alice_def bob_def
  alice_contact_def bob_contact_def invite_def answer_def in_dialog_def server0_def
  NewDialogServer_def

section \<open>The termination-request builder\<close>

lemma header_values_append:
  "header_values n (hs @ hs') = header_values n hs @ header_values n hs'"
  by (induction n hs rule: header_values.induct) simp_all

lemma first_from_append:
  "first_from (hs @ hs') = (case first_from hs of None \<Rightarrow> first_from hs' | Some a \<Rightarrow> Some a)"
  by (induction hs rule: first_from.induct) simp_all

lemma first_to_append:
  "first_to (hs @ hs') = (case first_to hs of None \<Rightarrow> first_to hs' | Some a \<Rightarrow> Some a)"
  by (induction hs rule: first_to.induct) simp_all

lemma first_callid_append:
  "first_callid (hs @ hs') =
     (case first_callid hs of None \<Rightarrow> first_callid hs' | Some a \<Rightarrow> Some a)"
  by (induction hs rule: first_callid.induct) simp_all

lemma append_routes_headers:
  "k \<le> length hdrs \<Longrightarrow>
   req_headers (append_routes hdrs k bye) =
     req_headers bye @ map (NewHeader ''Route'') (rev (take k hdrs))"
proof (induction hdrs k bye rule: append_routes.induct)
  case (1 hdrs bye)
  then show ?case by simp
next
  case (2 hdrs i bye)
  then show ?case
    by (simp add: AppendHeader_def take_Suc_conv_app_nth)
qed

lemma append_routes_fields:
  "Method (append_routes hdrs k bye) = Method bye"
  "Recipient (append_routes hdrs k bye) = Recipient bye"
  "Destination (append_routes hdrs k bye) = Destination bye"
  by (induction hdrs k bye rule: append_routes.induct) (simp_all add: AppendHeader_def)

lemma header_values_routes:
  "header_values ''Route'' (map (NewHeader ''Route'') vs) = vs"
  by (induction vs) simp_all

lemma first_of_routes:
  "first_from (map (NewHeader n) vs) = None"
  "first_to (map (NewHeader n) vs) = None"
  "first_callid (map (NewHeader n) vs) = None"
  by (induction vs) simp_all

text \<open>
  Claim C2. For a setup request that carries a Contact and a setup response that carries
  From and To, \<open>newByeRequestUAS\<close> returns a BYE whose target is the address of the
  request's Contact, whose From is the response's To and whose To is the response's
  From (display name, address and parameters, the tag among them), whose Call-ID is
  the response's, and whose Route values are the request's Record-Route values in
  reverse order.
\<close>

theorem newByeRequestUAS_spec:
  assumes "Contact req = Some cont" and "res_From res = Some f" and "res_To res = Some t"
  shows "\<exists>bye. newByeRequestUAS req res = Inr bye \<and>
           Method bye = ''BYE'' \<and>
           Recipient bye = Address cont \<and>
           From bye = Some t \<and> To bye = Some f \<and>
           CallID bye = res_CallID res \<and>
           GetHeaders bye ''Route'' = rev (GetHeaders req ''Record-Route'')"
  using assms
  by (cases "res_CallID res")
    (simp_all add: newByeRequestUAS_def Let_def From_def To_def CallID_def GetHeaders_def
      append_routes_headers append_routes_fields header_values_append header_values_routes
      first_from_append first_to_append first_callid_append first_of_routes
      AppendHeader_def NewRequest_def)

theorem newByeRequestUAS_spec_witness:
  "Contact invite = Some alice_contact \<and> res_From (answer 200) = Some alice \<and>
   res_To (answer 200) = Some bob \<and>
   GetHeaders invite ''Record-Route'' =
     [''<sip:p1.example;lr>'', ''<sip:p2.example;lr>'', ''<sip:p3.example;lr>''] \<and>
   (\<exists>bye. newByeRequestUAS invite (answer 200) = Inr bye \<and>
      Method bye = ''BYE'' \<and> Recipient bye = ''sip:alice@10.0.0.1'' \<and>
      From bye = Some bob \<and> To bye = Some alice \<and> CallID bye = Some ''c1'' \<and>
      GetHeaders bye ''Route'' =
        [''<sip:p3.example;lr>'', ''<sip:p2.example;lr>'', ''<sip:p1.example;lr>''])"
proof -
  have c: "Contact invite = Some alice_contact"
    and f: "res_From (answer 200) = Some alice"
    and t: "res_To (answer 200) = Some bob"
    by (simp_all add: msg_defs fixture_defs)
  have rr: "GetHeaders invite ''Record-Route'' =
     [''<sip:p1.example;lr>'', ''<sip:p2.example;lr>'', ''<sip:p3.example;lr>'']"
    by (simp add: msg_defs fixture_defs)
  have a: "Address alice_contact = ''sip:alice@10.0.0.1''"
    and i: "res_CallID (answer 200) = Some ''c1''"
    by (simp_all add: msg_defs fixture_defs)
  from newByeRequestUAS_spec [OF c f t] c f t rr a i show ?thesis by simp
qed

section \<open>WriteResponse\<close>

lemma IsSuccess_append: "IsSuccess (res_AppendHeader res h) = IsSuccess res"
  by (simp add: IsSuccess_def res_AppendHeader_def)

lemma IsProvisional_append: "IsProvisional (res_AppendHeader res h) = IsProvisional res"
  by (simp add: IsProvisional_def res_AppendHeader_def)

text \<open>
  Claim C1. When \<open>WriteResponse\<close> is given a successful response, no CANCEL and no end
  of the transaction is seen, and the identity \<open>i\<close> of the response is computed, it
  stores the handle under \<open>i\<close>, sets the state, and only then calls \<open>tx.Respond\<close>: these
  are the effects of the call, in this order. If the send succeeds the call returns
  nil, the registry holds the handle under \<open>i\<close>, and an ACK with identity \<open>i\<close> routed
  afterwards is not answered "does not exist". If the send fails the handle is deleted
  from the registry again, after the send and before the error is returned.
\<close>

theorem WriteResponse_registers_before_send:
  assumes "h < length (sessions w)"
    and "IsSuccess res0"
    and "res = res_AppendHeader res0 (ContactHeader (contactHDR w))"
    and "MakeDialogIDFromResponse lib res = Inr i"
    and "WriteResponse lib h res0 SelDefault r w = (ret, w')"
  shows "ret = r \<and>
         trace w' = trace w @
           [Stored i h, StateSet h DialogStateEstablished,
            Responded (inviteTx (sessions w ! h)) res r] @
           (case r of None \<Rightarrow> [] | Some err \<Rightarrow> [Deleted i]) \<and>
         loadDialog w' i = (case r of None \<Rightarrow> Some h | Some err \<Rightarrow> None) \<and>
         (\<forall>req tx. r = None \<and> MakeDialogIDFromRequest lib req = Inr i \<longrightarrow>
            fst (ReadAck lib req tx w') = None)"
  using assms
  by (cases r) (auto simp: WriteResponse_def Let_def prim_defs ReadAck_def IsSuccess_append)

theorem WriteResponse_registers_before_send_witness:
  "0 < length (sessions invited0) \<and> IsSuccess (answer 200) \<and>
   MakeDialogIDFromResponse std_sip
     (res_AppendHeader (answer 200) (ContactHeader (contactHDR invited0))) = Inr ''c1__b1__a1'' \<and>
   MakeDialogIDFromRequest std_sip (in_dialog ''ACK'') = Inr ''c1__b1__a1'' \<and>
   fst (WriteResponse std_sip 0 (answer 200) SelDefault None invited0) = None \<and>
   trace (snd (WriteResponse std_sip 0 (answer 200) SelDefault None invited0)) =
     [Stored ''c1__b1__a1'' 0, StateSet 0 DialogStateEstablished,
      Responded 7 (res_AppendHeader (answer 200) (ContactHeader bob_contact)) None] \<and>
   loadDialog (snd (WriteResponse std_sip 0 (answer 200) SelDefault None invited0))
     ''c1__b1__a1'' = Some 0 \<and>
   fst (ReadAck std_sip (in_dialog ''ACK'') 8
     (snd (WriteResponse std_sip 0 (answer 200) SelDefault None invited0))) = None \<and>
   fst (WriteResponse std_sip 0 (answer 200) SelDefault (Some (External ''broken pipe''))
     invited0) = Some (External ''broken pipe'') \<and>
   trace (snd (WriteResponse std_sip 0 (answer 200) SelDefault
     (Some (External ''broken pipe'')) invited0)) =
     [Stored ''c1__b1__a1'' 0, StateSet 0 DialogStateEstablished,
      Responded 7 (res_AppendHeader (answer 200) (ContactHeader bob_contact))
        (Some (External ''broken pipe'')),
      Deleted ''c1__b1__a1''] \<and>
   loadDialog (snd (WriteResponse std_sip 0 (answer 200) SelDefault
     (Some (External ''broken pipe'')) invited0)) ''c1__b1__a1'' = None"
proof -
  have a: "0 < length (sessions invited0)"
    and b: "IsSuccess (answer 200)"
    and c: "MakeDialogIDFromResponse std_sip
       (res_AppendHeader (answer 200) (ContactHeader (contactHDR invited0))) = Inr ''c1__b1__a1''"
    and d: "MakeDialogIDFromRequest std_sip (in_dialog ''ACK'') = Inr ''c1__b1__a1''"
    and e: "contactHDR invited0 = bob_contact" "trace invited0 = []"
      "inviteTx (sessions invited0 ! 0) = 7"
    by (simp_all add: op_defs prim_defs msg_defs fixture_defs invited0_def)
  note ok = WriteResponse_registers_before_send [OF a b refl c surjective_pairing,
    of None]
  note ko = WriteResponse_registers_before_send [OF a b refl c surjective_pairing,
    of "Some (External ''broken pipe'')"]
  from ok ko a b c d e show ?thesis by simp
qed

text \<open>
  Claim C5. When the \<open>select\<close> of \<open>WriteResponse\<close> receives a pending CANCEL, whatever
  the response (a successful final one included), the call answers the CANCEL with
  200 OK on the transaction, returns \<open>ErrDialogCanceled\<close>, and leaves the registry,
  every state and every identity as they were: nothing is registered and the state
  does not become established.
\<close>

theorem WriteResponse_canceled:
  assumes "h < length (sessions w)"
    and "WriteResponse lib h res0 (SelCancel creq) r w = (ret, w')"
  shows "ret = Some ErrDialogCanceled \<and>
         trace w' = trace w @
           [Responded (inviteTx (sessions w ! h))
              (NewResponseFromRequest lib creq 200 ''OK'' None) r] \<and>
         dialogs w' = dialogs w \<and>
         map state (sessions w') = map state (sessions w) \<and>
         map ID (sessions w') = map ID (sessions w)"
  using assms
  by (auto simp: WriteResponse_def Let_def prim_defs map_update list_update_same_conv)

theorem WriteResponse_canceled_witness:
  "0 < length (sessions invited0) \<and> IsSuccess (answer 200) \<and>
   fst (WriteResponse std_sip 0 (answer 200) (SelCancel (in_dialog ''CANCEL'')) None invited0) =
     Some ErrDialogCanceled \<and>
   trace (snd (WriteResponse std_sip 0 (answer 200) (SelCancel (in_dialog ''CANCEL'')) None
     invited0)) =
     [Responded 7 (NewResponseFromRequest std_sip (in_dialog ''CANCEL'') 200 ''OK'' None) None] \<and>
   dialogs (snd (WriteResponse std_sip 0 (answer 200) (SelCancel (in_dialog ''CANCEL'')) None
     invited0)) ''c1__b1__a1'' = None \<and>
   map state (sessions (snd (WriteResponse std_sip 0 (answer 200)
     (SelCancel (in_dialog ''CANCEL'')) None invited0))) = [DialogStateInit]"
proof -
  have a: "0 < length (sessions invited0)"
    and b: "IsSuccess (answer 200)"
    and e: "trace invited0 = []" "inviteTx (sessions invited0 ! 0) = 7"
      "dialogs invited0 = Map.empty" "map state (sessions invited0) = [DialogStateInit]"
    by (simp_all add: op_defs prim_defs msg_defs fixture_defs invited0_def Let_def)
  from WriteResponse_canceled [OF a surjective_pairing,
      of std_sip "answer 200" "in_dialog ''CANCEL''" None] a b e
  show ?thesis by simp
qed

text \<open>
  Claim C10, as the code has it. Every call of \<open>WriteResponse\<close> appends the server's
  Contact header as the last header of the response and stores the result as the
  session's setup response before the \<open>select\<close> runs, so on every path. A call that
  sees the transaction done returns its error and sends nothing; a call that receives
  a CANCEL returns \<open>ErrDialogCanceled\<close> and sends one message, the 200 OK built from
  the CANCEL. Both leave the registry and every state as they were, and both leave the
  response that was never sent, Contact header appended, as the stored setup response.
\<close>

theorem WriteResponse_stores_before_check:
  assumes "h < length (sessions w)"
    and "WriteResponse lib h res0 sel r w = (ret, w')"
  shows "InviteResponse (sessions w' ! h) =
           Some (res0\<lparr>res_headers := res_headers res0 @ [ContactHeader (contactHDR w)]\<rparr>) \<and>
         (\<forall>err. sel = SelDone err \<longrightarrow>
            ret = err \<and> trace w' = trace w \<and> dialogs w' = dialogs w \<and>
            map state (sessions w') = map state (sessions w)) \<and>
         (\<forall>creq. sel = SelCancel creq \<longrightarrow>
            ret = Some ErrDialogCanceled \<and>
            trace w' = trace w @
              [Responded (inviteTx (sessions w ! h))
                 (NewResponseFromRequest lib creq 200 ''OK'' None) r] \<and>
            dialogs w' = dialogs w \<and>
            map state (sessions w') = map state (sessions w))"
proof (intro conjI allI impI)
  show "InviteResponse (sessions w' ! h) =
      Some (res0\<lparr>res_headers := res_headers res0 @ [ContactHeader (contactHDR w)]\<rparr>)"
    using assms
    by (cases sel; cases r)
      (auto simp: WriteResponse_def Let_def prim_defs res_AppendHeader_def
        split: sum.splits if_splits)
next
  fix err assume "sel = SelDone err"
  with assms show "ret = err" and "trace w' = trace w" and "dialogs w' = dialogs w"
    and "map state (sessions w') = map state (sessions w)"
    by (auto simp: WriteResponse_def Let_def prim_defs map_update list_update_same_conv)
next
  fix creq assume "sel = SelCancel creq"
  with assms show "ret = Some ErrDialogCanceled"
    and "trace w' = trace w @
      [Responded (inviteTx (sessions w ! h)) (NewResponseFromRequest lib creq 200 ''OK'' None) r]"
    and "dialogs w' = dialogs w"
    and "map state (sessions w') = map state (sessions w)"
    by (auto simp: WriteResponse_def Let_def prim_defs map_update list_update_same_conv)
qed

theorem WriteResponse_stores_before_check_witness:
  "0 < length (sessions invited0) \<and>
   InviteResponse (sessions invited0 ! 0) = None \<and>
   contactHDR invited0 = bob_contact \<and>
   fst (WriteResponse std_sip 0 (answer 200) (SelDone (Some (External ''timeout''))) None
     invited0) = Some (External ''timeout'') \<and>
   trace (snd (WriteResponse std_sip 0 (answer 200) (SelDone (Some (External ''timeout'')))
     None invited0)) = [] \<and>
   InviteResponse (sessions (snd (WriteResponse std_sip 0 (answer 200)
     (SelDone (Some (External ''timeout''))) None invited0)) ! 0) =
     Some \<lparr>StatusCode = 200, Reason = ''R'',
           res_headers = [FromHeader alice, ToHeader bob, CallIDHeader ''c1'',
                          ContactHeader bob_contact],
           Body = None\<rparr> \<and>
   fst (WriteResponse std_sip 0 (answer 200) (SelCancel (in_dialog ''CANCEL'')) None
     invited0) = Some ErrDialogCanceled \<and>
   InviteResponse (sessions (snd (WriteResponse std_sip 0 (answer 200)
     (SelCancel (in_dialog ''CANCEL'')) None invited0)) ! 0) =
     Some \<lparr>StatusCode = 200, Reason = ''R'',
           res_headers = [FromHeader alice, ToHeader bob, CallIDHeader ''c1'',
                          ContactHeader bob_contact],
           Body = None\<rparr> \<and>
   first_contact (res_headers (the (InviteResponse (sessions (snd (WriteResponse std_sip 0
     (answer 200) (SelCancel (in_dialog ''CANCEL'')) None invited0)) ! 0)))) =
     Some bob_contact \<and>
   dialogs (snd (WriteResponse std_sip 0 (answer 200) (SelCancel (in_dialog ''CANCEL'')) None
     invited0)) = Map.empty \<and>
   map state (sessions (snd (WriteResponse std_sip 0 (answer 200)
     (SelCancel (in_dialog ''CANCEL'')) None invited0))) = [DialogStateInit]"
proof -
  have a: "0 < length (sessions invited0)"
    and e: "InviteResponse (sessions invited0 ! 0) = None" "trace invited0 = []"
      "contactHDR invited0 = bob_contact" "dialogs invited0 = Map.empty"
      "map state (sessions invited0) = [DialogStateInit]"
    by (simp_all add: op_defs prim_defs msg_defs fixture_defs invited0_def Let_def)
  note seen_done =
    WriteResponse_stores_before_check [OF a surjective_pairing,
      where lib = std_sip and ?res0.0 = "answer 200"
        and sel = "SelDone (Some (External ''timeout''))" and r = None]
  note seen_cancel =
    WriteResponse_stores_before_check [OF a surjective_pairing,
      where lib = std_sip and ?res0.0 = "answer 200"
        and sel = "SelCancel (in_dialog ''CANCEL'')" and r = None]
  from seen_done seen_cancel a e show ?thesis by (simp add: answer_def)
qed

text \<open>
  Against claim C10 as stated: the call that returns \<open>ErrDialogCanceled\<close> does send
  something, the 200 OK that answers the CANCEL.
\<close>

theorem WriteResponse_canceled_sends_counterexample:
  "trace invited0 = [] \<and>
   fst (WriteResponse std_sip 0 (answer 200) (SelCancel (in_dialog ''CANCEL'')) None
     invited0) = Some ErrDialogCanceled \<and>
   trace (snd (WriteResponse std_sip 0 (answer 200) (SelCancel (in_dialog ''CANCEL'')) None
     invited0)) =
     [Responded 7
        \<lparr>StatusCode = 200, Reason = ''OK'',
         res_headers = [FromHeader alice, ToHeader bob, CallIDHeader ''c1''],
         Body = None\<rparr> None]"
  by (simp add: op_defs prim_defs msg_defs fixture_defs invited0_def Let_def)

section \<open>Close\<close>

text \<open>
  Claim C9, as the code has it. \<open>Close\<close> on a session deletes the registry entry under
  the session's identity, returns nil and changes no session: neither the state nor the
  lifetime context, whose cancel function it does not call. A second \<open>Close\<close> returns
  nil again and leaves registry and sessions as the first left them.
\<close>

theorem Close_removes_identity:
  assumes "h < length (sessions w)"
  shows "fst (Close h w) = None \<and>
         dialogs (snd (Close h w)) = (dialogs w)(ID (sessions w ! h) := None) \<and>
         sessions (snd (Close h w)) = sessions w \<and>
         fst (Close h (snd (Close h w))) = None \<and>
         dialogs (snd (Close h (snd (Close h w)))) = dialogs (snd (Close h w)) \<and>
         sessions (snd (Close h (snd (Close h w)))) = sessions w"
  using assms by (simp add: Close_def prim_defs)

theorem Close_removes_identity_witness:
  "0 < length (sessions established0) \<and>
   dialogs established0 ''c1__b1__a1'' = Some 0 \<and>
   fst (Close 0 established0) = None \<and>
   dialogs (snd (Close 0 established0)) ''c1__b1__a1'' = None \<and>
   fst (Close 0 (snd (Close 0 established0))) = None \<and>
   dialogs (snd (Close 0 (snd (Close 0 established0)))) ''c1__b1__a1'' = None \<and>
   sessions (snd (Close 0 (snd (Close 0 established0)))) = sessions established0"
proof -
  have a: "0 < length (sessions established0)"
    and e: "dialogs established0 ''c1__b1__a1'' = Some 0"
      "ID (sessions established0 ! 0) = ''c1__b1__a1''"
    by (simp_all add: op_defs prim_defs msg_defs fixture_defs established0_def Let_def)
  from Close_removes_identity [OF a] a e show ?thesis by simp
qed

text \<open>
  Against claim C9 as stated: after \<open>Close\<close> on an established session the cancel
  function of its lifetime context has still not been called, and the state is still
  established.
\<close>

theorem Close_no_cancel_counterexample:
  "fst (Close 0 established0) = None \<and>
   cancel_calls (sessions (snd (Close 0 established0)) ! 0) = 0 \<and>
   state (sessions (snd (Close 0 established0)) ! 0) = DialogStateEstablished"
  by (simp add: op_defs prim_defs msg_defs fixture_defs established0_def Let_def)

section \<open>Routing errors\<close>

text \<open>
  Claim C6 at a BYE without Call-ID, whose identity cannot be computed: \<open>ReadBye\<close>
  returns the error of \<open>MakeDialogIDFromRequest\<close> as it is, which is not
  \<open>ErrDialogOutsideDialog\<close>, while \<open>ReadAck\<close> on the same request joins
  \<open>ErrDialogOutsideDialog\<close> to it.
\<close>

theorem ReadBye_outside_dialog_error:
  "MakeDialogIDFromRequest std_sip bye_without_callid =
     Inl (Errorf ''missing Call-ID header'') \<and>
   fst (ReadBye std_sip bye_without_callid 8 None server0) =
     Some (Errorf ''missing Call-ID header'') \<and>
   \<not> errors_Is (Errorf ''missing Call-ID header'') ErrDialogOutsideDialog \<and>
   fst (ReadAck std_sip bye_without_callid 8 server0) =
     Some (Join ErrDialogOutsideDialog (Errorf ''missing Call-ID header'')) \<and>
   errors_Is (Join ErrDialogOutsideDialog (Errorf ''missing Call-ID header''))
     ErrDialogOutsideDialog"
  by (simp add: op_defs prim_defs msg_defs fixture_defs bye_without_callid_def Let_def)

section \<open>Bye\<close>

text \<open>
  Claim C7, as the code has it. On a session that is not ended and whose stored setup
  response (the response last given to \<open>WriteResponse\<close>, sent or not) is not a
  successful one, \<open>Bye\<close> returns the error "can not send bye on NON success response"
  and does nothing else: no request is sent and the world is unchanged.
\<close>

theorem Bye_non_success:
  assumes "h < length (sessions w)"
    and "state (sessions w ! h) \<noteq> DialogStateEnded"
    and "InviteResponse (sessions w ! h) = Some res"
    and "\<not> IsSuccess res"
  shows "Bye lib h waits txr aw w =
           (Returned (Some (Errorf ''can not send bye on NON success response'')), w)"
  using assms by (simp add: Bye_def)

theorem Bye_non_success_witness:
  "0 < length (sessions ringing0) \<and>
   state (sessions ringing0 ! 0) \<noteq> DialogStateEnded \<and>
   InviteResponse (sessions ringing0 ! 0) =
     Some (res_AppendHeader (answer 180) (ContactHeader bob_contact)) \<and>
   \<not> IsSuccess (res_AppendHeader (answer 180) (ContactHeader bob_contact)) \<and>
   Bye std_sip 0 [InviteTxDone] (Inr 9) (GotResponse (answer 200)) ringing0 =
     (Returned (Some (Errorf ''can not send bye on NON success response'')), ringing0)"
proof -
  have a: "0 < length (sessions ringing0)"
    and b: "state (sessions ringing0 ! 0) \<noteq> DialogStateEnded"
    and c: "InviteResponse (sessions ringing0 ! 0) =
       Some (res_AppendHeader (answer 180) (ContactHeader bob_contact))"
    and d: "\<not> IsSuccess (res_AppendHeader (answer 180) (ContactHeader bob_contact))"
    by (simp_all add: op_defs prim_defs msg_defs fixture_defs ringing0_def Let_def)
  from Bye_non_success [OF a b c d] a b c d show ?thesis by simp
qed

text \<open>
  Against claim C7 as stated: a 200 is written and its send fails, so no successful
  response was ever sent and the session is not ended; yet \<open>Bye\<close>, once the INVITE
  transaction is done, hands a BYE to the client and returns nil.
\<close>

theorem Bye_after_failed_send_counterexample:
  "state (sessions unsent0 ! 0) \<noteq> DialogStateEnded \<and>
   \<not> success_sent (trace unsent0) \<and>
   fst (Bye std_sip 0 [InviteTxDone] (Inr 9) (GotResponse (answer 200)) unsent0) =
     Returned None \<and>
   requested 9 (trace (snd (Bye std_sip 0 [InviteTxDone] (Inr 9) (GotResponse (answer 200))
     unsent0)))"
  by (simp add: op_defs prim_defs msg_defs fixture_defs unsent0_def requested_def success_sent_def Let_def)

subsection \<open>Routing calls keep the shape of the heap\<close>

lemma map_update_same: "(map f xs)[i := f (xs ! i)] = map f xs"
  by (cases "i < length xs") (simp_all add: list_update_same_conv list_update_beyond)

lemma ReadAck_frame:
  "length (sessions (snd (ReadAck lib req tx w))) = length (sessions w)"
  "map ID (sessions (snd (ReadAck lib req tx w))) = map ID (sessions w)"
  "\<exists>t. trace (snd (ReadAck lib req tx w)) = trace w @ t \<and> requests t = []"
  by (auto simp: ReadAck_def prim_defs requests_def map_update map_update_same
      split: sum.splits option.splits)

lemma ReadBye_frame:
  "length (sessions (snd (ReadBye lib req tx r w))) = length (sessions w)"
  "map ID (sessions (snd (ReadBye lib req tx r w))) = map ID (sessions w)"
  "\<exists>t. trace (snd (ReadBye lib req tx r w)) = trace w @ t \<and> requests t = []"
  by (auto simp: ReadBye_def Close_def Let_def prim_defs requests_def map_update
      map_update_same split: sum.splits option.splits)

lemma run_call_frame:
  "length (sessions (run_call lib w c)) = length (sessions w)"
  "map ID (sessions (run_call lib w c)) = map ID (sessions w)"
  "\<exists>t. trace (run_call lib w c) = trace w @ t \<and> requests t = []"
  by (cases c; simp add: ReadAck_frame ReadBye_frame)+

lemma requests_append: "requests (a @ b) = requests a @ requests b"
  by (simp add: requests_def)

lemma run_calls_frame:
  "length (sessions (run_calls lib w cs)) = length (sessions w) \<and>
   map ID (sessions (run_calls lib w cs)) = map ID (sessions w) \<and>
   (\<exists>t. trace (run_calls lib w cs) = trace w @ t \<and> requests t = [])"
proof (induction cs arbitrary: w)
  case Nil
  then show ?case by (simp add: run_calls_def requests_def)
next
  case (Cons c cs)
  obtain t1 where t1: "trace (run_call lib w c) = trace w @ t1" "requests t1 = []"
    using run_call_frame(3) by blast
  from Cons.IH[of "run_call lib w c"] obtain t2 where
    t2: "trace (run_calls lib (run_call lib w c) cs) = trace (run_call lib w c) @ t2"
      "requests t2 = []"
    and l: "length (sessions (run_calls lib (run_call lib w c) cs)) = length (sessions (run_call lib w c))"
    and i: "map ID (sessions (run_calls lib (run_call lib w c) cs)) = map ID (sessions (run_call lib w c))"
    by blast
  have r: "run_calls lib w (c # cs) = run_calls lib (run_call lib w c) cs"
    by (simp add: run_calls_def)
  have "trace (run_calls lib w (c # cs)) = trace w @ (t1 @ t2) \<and> requests (t1 @ t2) = []"
    using t1 t2 r by (simp add: requests_append)
  then show ?case using l i r run_call_frame(1,2)[of lib w c] by (metis)
qed


subsection \<open>The wait loop\<close>

lemma after_waits_Nil: "after_waits lib w [] = w"
  by (simp add: after_waits_def run_calls_def)

lemma after_waits_Cons:
  "after_waits lib w (ev # evs) = after_waits lib (run_calls lib w (calls_of ev)) evs"
  by (simp add: after_waits_def run_calls_def)

lemma after_waits_frame:
  "length (sessions (after_waits lib w evs)) = length (sessions w) \<and>
   map ID (sessions (after_waits lib w evs)) = map ID (sessions w) \<and>
   (\<exists>t. trace (after_waits lib w evs) = trace w @ t \<and> requests t = [])"
  unfolding after_waits_def by (rule run_calls_frame)

lemma wait_confirmed_Ready:
  "wait_confirmed lib h w evs = Ready w1 \<Longrightarrow>
   \<exists>pre post. evs = pre @ post \<and> (\<forall>e\<in>set pre. is_timer e) \<and>
     w1 = after_waits lib w pre \<and>
     (\<not> below_confirmed w1 h \<or> (\<exists>post'. post = InviteTxDone # post'))"
proof (induction evs arbitrary: w)
  case Nil
  then show ?case by (auto simp: after_waits_Nil split: if_splits)
next
  case (Cons ev evs)
  show ?case
  proof (cases "below_confirmed w h")
    case False
    with Cons.prems have "w1 = w" by simp
    with False have "ev # evs = [] @ (ev # evs) \<and> (\<forall>e\<in>set []. is_timer e) \<and>
        w1 = after_waits lib w [] \<and> \<not> below_confirmed w1 h"
      by (simp add: after_waits_Nil)
    then show ?thesis by blast
  next
    case True
    show ?thesis
    proof (cases ev)
      case InviteTxDone
      with True Cons.prems have "w1 = w" by simp
      with InviteTxDone have "ev # evs = [] @ (InviteTxDone # evs) \<and>
          (\<forall>e\<in>set []. is_timer e) \<and> w1 = after_waits lib w []"
        by (simp add: after_waits_Nil)
      then show ?thesis by blast
    next
      case (TimerT1 cs)
      with True Cons.prems have "wait_confirmed lib h (run_calls lib w cs) evs = Ready w1"
        by simp
      from Cons.IH[OF this] obtain pre post where
        p: "evs = pre @ post" "\<forall>e\<in>set pre. is_timer e"
           "w1 = after_waits lib (run_calls lib w cs) pre"
           "\<not> below_confirmed w1 h \<or> (\<exists>post'. post = InviteTxDone # post')"
        by blast
      have "ev # evs = (ev # pre) @ post \<and> (\<forall>e\<in>set (ev # pre). is_timer e) \<and>
          w1 = after_waits lib w (ev # pre)"
        using p TimerT1 by (simp add: after_waits_Cons)
      with p(4) show ?thesis by blast
    next
      case (CtxDone err)
      with True Cons.prems show ?thesis by simp
    qed
  qed
qed

lemma wait_confirmed_world:
  "wait_confirmed lib h w evs = Ready w1 \<or> wait_confirmed lib h w evs = Cancelled err w1 \<or>
   wait_confirmed lib h w evs = Blocked w1 \<Longrightarrow> \<exists>pre. w1 = after_waits lib w pre"
proof (induction evs arbitrary: w)
  case Nil
  then have "w1 = after_waits lib w []"
    by (auto simp: after_waits_Nil split: if_splits)
  then show ?case by blast
next
  case (Cons ev evs)
  show ?case
  proof (cases "below_confirmed w h \<and> is_timer ev")
    case False
    with Cons.prems have "w1 = after_waits lib w []"
      by (cases ev) (auto simp: after_waits_Nil split: if_splits)
    then show ?thesis by blast
  next
    case True
    then obtain cs where ev: "ev = TimerT1 cs" by (cases ev) auto
    with True Cons.prems have
      "wait_confirmed lib h (run_calls lib w cs) evs = Ready w1 \<or>
       wait_confirmed lib h (run_calls lib w cs) evs = Cancelled err w1 \<or>
       wait_confirmed lib h (run_calls lib w cs) evs = Blocked w1"
      by simp
    from Cons.IH[OF this] obtain pre where "w1 = after_waits lib (run_calls lib w cs) pre"
      by blast
    then have "w1 = after_waits lib w (ev # pre)" using ev by (simp add: after_waits_Cons)
    then show ?thesis by blast
  qed
qed

lemma wait_confirmed_frame:
  assumes "wait_confirmed lib h w evs = Ready w1 \<or> wait_confirmed lib h w evs = Cancelled err w1 \<or>
   wait_confirmed lib h w evs = Blocked w1"
  shows "length (sessions w1) = length (sessions w)"
    and "map ID (sessions w1) = map ID (sessions w)"
    and "\<exists>t. trace w1 = trace w @ t \<and> requests t = []"
  using wait_confirmed_world[OF assms] after_waits_frame by blast+

lemma wait_confirmed_Cancelled:
  "(\<forall>e\<in>set pre. is_timer e) \<Longrightarrow>
   (\<forall>n\<le>length pre. below_confirmed (after_waits lib w (take n pre)) h) \<Longrightarrow>
   wait_confirmed lib h w (pre @ CtxDone err # post) = Cancelled err (after_waits lib w pre)"
proof (induction pre arbitrary: w)
  case Nil
  then show ?case by (simp add: after_waits_Nil)
next
  case (Cons ev pre)
  from Cons.prems(1) obtain cs where ev: "ev = TimerT1 cs" by (cases ev) auto
  from Cons.prems(2) have b0: "below_confirmed w h"
    by (metis after_waits_Nil le0 take_0)
  have "\<forall>n\<le>length pre. below_confirmed (after_waits lib (run_calls lib w cs) (take n pre)) h"
  proof (intro allI impI)
    fix n assume "n \<le> length pre"
    then have "Suc n \<le> length (ev # pre)" by simp
    with Cons.prems(2) have "below_confirmed (after_waits lib w (take (Suc n) (ev # pre))) h"
      by blast
    then show "below_confirmed (after_waits lib (run_calls lib w cs) (take n pre)) h"
      using ev by (simp add: after_waits_Cons)
  qed
  with Cons.IH[of "run_calls lib w cs"] Cons.prems(1)
  have "wait_confirmed lib h (run_calls lib w cs) (pre @ CtxDone err # post) =
          Cancelled err (after_waits lib (run_calls lib w cs) pre)"
    by simp
  then show ?case using b0 ev by (simp add: after_waits_Cons)
qed


subsection \<open>Leaving Bye\<close>

lemma bye_cleanup_frame:
  assumes "h < length (sessions w)"
  shows "sessions (bye_cleanup h w) = sessions w"
    and "trace (bye_cleanup h w) =
           trace w @ [Terminated (inviteTx (sessions w ! h)), Deleted (ID (sessions w ! h))]"
    and "dialogs (bye_cleanup h w) = (dialogs w)(ID (sessions w ! h) := None)"
  using assms by (simp_all add: bye_cleanup_def Close_def prim_defs)

lemma requests_cleanup:
  "h < length (sessions w) \<Longrightarrow> requests (trace (bye_cleanup h w)) = requests (trace w)"
  by (simp add: bye_cleanup_frame requests_def)

text \<open>
  Claim C3. A call of \<open>Bye\<close> hands a termination request to the client only if its
  wait loop, after some timer rounds, either read a state that is not below confirmed
  or saw the INVITE transaction done; a cancelled context is never a reason to send.
  And when the session has a successful stored response, the state is below confirmed
  at every reading and the context is cancelled, \<open>Bye\<close> returns the context's error and
  hands no request to the client.
\<close>

theorem Bye_waits_for_confirmation:
  assumes "h < length (sessions w)"
    and "Bye lib h waits txr aw w = (out, w')"
  shows "(requests (trace w') \<noteq> requests (trace w) \<longrightarrow>
            (\<exists>pre post. waits = pre @ post \<and> (\<forall>e\<in>set pre. is_timer e) \<and>
               (\<not> below_confirmed (after_waits lib w pre) h \<or>
                (\<exists>post'. post = InviteTxDone # post')))) \<and>
         (\<forall>pre err post res.
            waits = pre @ CtxDone err # post \<and> (\<forall>e\<in>set pre. is_timer e) \<and>
            (\<forall>n\<le>length pre. below_confirmed (after_waits lib w (take n pre)) h) \<and>
            InviteResponse (sessions w ! h) = Some res \<and> IsSuccess res \<longrightarrow>
            out = Returned (Some err) \<and> requests (trace w') = requests (trace w))"
proof (intro conjI impI allI)
  assume sent: "requests (trace w') \<noteq> requests (trace w)"
  from assms sent obtain res where
    res: "state (sessions w ! h) \<noteq> DialogStateEnded"
      "InviteResponse (sessions w ! h) = Some res" "IsSuccess res"
    by (auto simp: Bye_def split: if_splits option.splits)
  show "\<exists>pre post. waits = pre @ post \<and> (\<forall>e\<in>set pre. is_timer e) \<and>
          (\<not> below_confirmed (after_waits lib w pre) h \<or> (\<exists>post'. post = InviteTxDone # post'))"
  proof (cases "wait_confirmed lib h w waits")
    case (Ready w1)
    from wait_confirmed_Ready[OF this] show ?thesis by blast
  next
    case (Cancelled err w1)
    then have l: "length (sessions w1) = length (sessions w)"
      and t: "\<exists>t. trace w1 = trace w @ t \<and> requests t = []"
      using wait_confirmed_frame[of lib h w waits w1 err] by simp_all
    from assms res Cancelled have "w' = bye_cleanup h w1" by (simp add: Bye_def)
    with l t assms(1) have "requests (trace w') = requests (trace w)"
      by (auto simp: requests_cleanup requests_append)
    with sent show ?thesis by simp
  next
    case (Blocked w1)
    then have t: "\<exists>t. trace w1 = trace w @ t \<and> requests t = []"
      using wait_confirmed_frame[of lib h w waits w1] by simp
    from assms res Blocked have "w' = w1" by (simp add: Bye_def)
    with t have "requests (trace w') = requests (trace w)"
      by (auto simp: requests_append)
    with sent show ?thesis by simp
  qed
next
  fix pre err post res
  assume a: "waits = pre @ CtxDone err # post \<and> (\<forall>e\<in>set pre. is_timer e) \<and>
            (\<forall>n\<le>length pre. below_confirmed (after_waits lib w (take n pre)) h) \<and>
            InviteResponse (sessions w ! h) = Some res \<and> IsSuccess res"
  then have wc: "wait_confirmed lib h w waits = Cancelled err (after_waits lib w pre)"
    using wait_confirmed_Cancelled by blast
  from a have "below_confirmed w h" by (metis after_waits_Nil le0 take_0)
  then have ne: "state (sessions w ! h) \<noteq> DialogStateEnded"
    by (auto simp: below_confirmed_def)
  from assms a wc ne have o: "out = Returned (Some err)"
    and w': "w' = bye_cleanup h (after_waits lib w pre)"
    by (simp_all add: Bye_def)
  from o show "out = Returned (Some err)" .
  from after_waits_frame[of lib w pre] obtain t where
    "length (sessions (after_waits lib w pre)) = length (sessions w)"
    "trace (after_waits lib w pre) = trace w @ t" "requests t = []"
    by blast
  with w' assms(1) show "requests (trace w') = requests (trace w)"
    by (simp add: requests_cleanup requests_append)
qed

theorem Bye_waits_for_confirmation_witness:
  "0 < length (sessions established0) \<and> below_confirmed established0 0 \<and>
   fst (Bye std_sip 0 [TimerT1 [], CtxDone (External ''deadline'')] (Inr 9)
     (GotResponse (answer 200)) established0) = Returned (Some (External ''deadline'')) \<and>
   requests (trace (snd (Bye std_sip 0 [TimerT1 [], CtxDone (External ''deadline'')] (Inr 9)
     (GotResponse (answer 200)) established0))) = requests (trace established0) \<and>
   requests (trace (snd (Bye std_sip 0 [TimerT1 [AckCall (in_dialog ''ACK'') 8]] (Inr 9)
     (GotResponse (answer 200)) established0))) \<noteq> requests (trace established0) \<and>
   \<not> below_confirmed
     (after_waits std_sip established0 [TimerT1 [AckCall (in_dialog ''ACK'') 8]]) 0 \<and>
   (\<exists>pre post. [TimerT1 [AckCall (in_dialog ''ACK'') 8]] = pre @ post \<and>
      (\<forall>e\<in>set pre. is_timer e) \<and>
      (\<not> below_confirmed (after_waits std_sip established0 pre) 0 \<or>
       (\<exists>post'. post = InviteTxDone # post')))"
proof -
  have a: "0 < length (sessions established0)"
    and b: "below_confirmed established0 0"
    and c: "InviteResponse (sessions established0 ! 0) =
       Some (res_AppendHeader (answer 200) (ContactHeader bob_contact))"
    and d: "IsSuccess (res_AppendHeader (answer 200) (ContactHeader bob_contact))"
    by (simp_all add: op_defs prim_defs msg_defs fixture_defs established0_def requests_def after_waits_def Let_def)
  have e: "\<forall>n\<le>length [TimerT1 []].
      below_confirmed (after_waits std_sip established0 (take n [TimerT1 []])) 0"
  proof (intro allI impI)
    fix n :: nat assume "n \<le> length [TimerT1 []]"
    then have "n = 0 \<or> n = 1" by auto
    then have "after_waits std_sip established0 (take n [TimerT1 []]) = established0"
      by (auto simp: after_waits_def run_calls_def)
    with b show "below_confirmed (after_waits std_sip established0 (take n [TimerT1 []])) 0"
      by simp
  qed
  have f: "\<forall>ev\<in>set [TimerT1 []]. is_timer ev" by simp
  note cancelled =
    Bye_waits_for_confirmation [where lib = std_sip and h = 0 and w = established0
      and waits = "[TimerT1 [], CtxDone (External ''deadline'')]" and txr = "Inr 9"
      and aw = "GotResponse (answer 200)", OF a surjective_pairing, THEN conjunct2,
      rule_format, where pre = "[TimerT1 []]" and err = "External ''deadline''"
      and post = "[]" and res = "res_AppendHeader (answer 200) (ContactHeader bob_contact)"]
  have g: "fst (Bye std_sip 0 [TimerT1 [], CtxDone (External ''deadline'')] (Inr 9)
       (GotResponse (answer 200)) established0) = Returned (Some (External ''deadline'')) \<and>
     requests (trace (snd (Bye std_sip 0 [TimerT1 [], CtxDone (External ''deadline'')] (Inr 9)
       (GotResponse (answer 200)) established0))) = requests (trace established0)"
    using cancelled c d e f by simp
  have h: "requests (trace (snd (Bye std_sip 0 [TimerT1 [AckCall (in_dialog ''ACK'') 8]] (Inr 9)
       (GotResponse (answer 200)) established0))) \<noteq> requests (trace established0)"
    and i: "\<not> below_confirmed
       (after_waits std_sip established0 [TimerT1 [AckCall (in_dialog ''ACK'') 8]]) 0"
    by (simp_all add: op_defs prim_defs msg_defs fixture_defs established0_def requests_def after_waits_def Let_def)
  note sent =
    Bye_waits_for_confirmation [OF a surjective_pairing, THEN conjunct1, rule_format, OF h]
  from a b g h i sent show ?thesis by blast
qed

lemma requested_append: "requested tx (a @ b) = (requested tx a \<or> requested tx b)"
  by (simp add: requested_def)

lemma requested_no_requests: "requests t = [] \<Longrightarrow> \<not> requested tx t"
  by (induction t) (auto simp: requested_def requests_def elim: is_request_on.elims split: if_splits)

lemma send_bye_await:
  assumes "h < length (sessions w1)"
    and "send_bye lib h req res (Inr tx) aw w1 = (ret, w2)"
    and "\<not> requested tx (trace w1)"
    and "requested tx (trace w2)"
  shows "length (sessions w2) = length (sessions w1) \<and>
         (case aw of
            GotResponse r \<Rightarrow>
              (if StatusCode r = 200
               then ret = None \<and> state (sessions w2 ! h) = DialogStateEnded
               else ret = Some (ErrDialogResponse r) \<and>
                    state (sessions w2 ! h) = state (sessions w1 ! h))
          | ClientTxDone err \<Rightarrow> ret = err \<and> state (sessions w2 ! h) = state (sessions w1 ! h)
          | AwaitCtxDone err \<Rightarrow>
              ret = Some err \<and> state (sessions w2 ! h) = state (sessions w1 ! h))"
  using assms
  by (cases aw)
    (auto simp: send_bye_def Let_def prim_defs requested_def
      split: sum.splits option.splits if_splits)

text \<open>
  Claim C8, as the code has it. When \<open>Bye\<close> has created the client transaction \<open>tx\<close>
  for its BYE, the last \<open>select\<close> decides: a response with status code 200 sets the
  state to ended and \<open>Bye\<close> returns nil; a response with any other status code makes
  it return \<open>ErrDialogResponse\<close> with that response, the state left as the wait loop
  found it; the transaction done makes it return the transaction's error; the context
  cancelled makes it return the context's error.
\<close>

theorem Bye_awaits_response:
  assumes "h < length (sessions w)"
    and "wait_confirmed lib h w waits = Ready w1"
    and "\<not> requested tx (trace w1)"
    and "Bye lib h waits (Inr tx) aw w = (out, w')"
    and "requested tx (trace w')"
  shows "(case aw of
            GotResponse r \<Rightarrow>
              (if StatusCode r = 200
               then out = Returned None \<and> state (sessions w' ! h) = DialogStateEnded
               else out = Returned (Some (ErrDialogResponse r)) \<and>
                    state (sessions w' ! h) = state (sessions w1 ! h))
          | ClientTxDone err \<Rightarrow>
              out = Returned err \<and> state (sessions w' ! h) = state (sessions w1 ! h)
          | AwaitCtxDone err \<Rightarrow>
              out = Returned (Some err) \<and> state (sessions w' ! h) = state (sessions w1 ! h))"
proof -
  have l1: "length (sessions w1) = length (sessions w)"
    and t1: "\<exists>t. trace w1 = trace w @ t \<and> requests t = []"
    using wait_confirmed_frame[of lib h w waits w1] assms(2) by simp_all
  from t1 assms(3) have nw: "\<not> requested tx (trace w)"
    by (auto simp: requested_append)
  with assms(1,4,5) obtain res where
    res: "state (sessions w ! h) \<noteq> DialogStateEnded"
      "InviteResponse (sessions w ! h) = Some res" "IsSuccess res"
    by (auto simp: Bye_def split: if_splits option.splits)
  obtain ret w2 where sb: "send_bye lib h (InviteRequest (sessions w ! h)) res (Inr tx) aw w1 = (ret, w2)"
    by (cases "send_bye lib h (InviteRequest (sessions w ! h)) res (Inr tx) aw w1") blast
  have l2: "length (sessions w2) = length (sessions w1)"
    using sb by (cases aw)
      (auto simp: send_bye_def Let_def prim_defs split: sum.splits option.splits if_splits)
  from assms(1,2,4) res sb have o: "out = Returned ret" and w': "w' = bye_cleanup h w2"
    by (simp_all add: Bye_def Let_def)
  have h2: "h < length (sessions w2)" using l1 l2 assms(1) by simp
  from w' h2 assms(5) have "requested tx (trace w2)"
    by (simp add: bye_cleanup_frame requested_append requested_def)
  from send_bye_await[OF _ sb assms(3) this] l1 assms(1)
  have c: "(case aw of
            GotResponse r \<Rightarrow>
              (if StatusCode r = 200
               then ret = None \<and> state (sessions w2 ! h) = DialogStateEnded
               else ret = Some (ErrDialogResponse r) \<and>
                    state (sessions w2 ! h) = state (sessions w1 ! h))
          | ClientTxDone err \<Rightarrow> ret = err \<and> state (sessions w2 ! h) = state (sessions w1 ! h)
          | AwaitCtxDone err \<Rightarrow>
              ret = Some err \<and> state (sessions w2 ! h) = state (sessions w1 ! h))"
    by simp
  have "sessions w' = sessions w2" using w' h2 by (simp add: bye_cleanup_frame)
  with c o show ?thesis by (cases aw) simp_all
qed

theorem Bye_awaits_response_witness:
  "0 < length (sessions confirmed0) \<and>
   wait_confirmed std_sip 0 confirmed0 [] = Ready confirmed0 \<and>
   \<not> requested 9 (trace confirmed0) \<and>
   requested 9 (trace (snd (Bye std_sip 0 [] (Inr 9) (GotResponse (answer 200)) confirmed0))) \<and>
   fst (Bye std_sip 0 [] (Inr 9) (GotResponse (answer 200)) confirmed0) = Returned None \<and>
   state (sessions (snd (Bye std_sip 0 [] (Inr 9) (GotResponse (answer 200)) confirmed0)) ! 0) =
     DialogStateEnded"
proof -
  have a: "0 < length (sessions confirmed0)"
    and b: "wait_confirmed std_sip 0 confirmed0 [] = Ready confirmed0"
    and c: "\<not> requested 9 (trace confirmed0)"
    and d: "requested 9
       (trace (snd (Bye std_sip 0 [] (Inr 9) (GotResponse (answer 200)) confirmed0)))"
    and e: "StatusCode (answer 200) = 200"
    by (simp_all add: op_defs prim_defs msg_defs fixture_defs confirmed0_def requested_def Let_def)
  from Bye_awaits_response [OF a b c surjective_pairing d] a b c d e
  show ?thesis by simp
qed

text \<open>
  Against claim C8 as stated: 202 is a success code, and a 202 answer to the BYE makes
  \<open>Bye\<close> return \<open>ErrDialogResponse\<close> and leaves the session confirmed, not ended.
\<close>

theorem Bye_202_counterexample:
  "IsSuccess (answer 202) \<and>
   fst (Bye std_sip 0 [] (Inr 9) (GotResponse (answer 202)) confirmed0) =
     Returned (Some (ErrDialogResponse (answer 202))) \<and>
   state (sessions (snd (Bye std_sip 0 [] (Inr 9) (GotResponse (answer 202)) confirmed0)) ! 0) =
     DialogStateConfirmed"
  by (simp add: op_defs prim_defs msg_defs fixture_defs confirmed0_def Let_def)

section \<open>The registry invariant\<close>

lemma registry_inv_emit: "registry_inv (emit e w) = registry_inv w"
  by (simp add: registry_inv_def emit_def)

lemma registry_inv_shape:
  "dialogs w' = dialogs w \<Longrightarrow> sessions w' = sessions w \<Longrightarrow> registry_inv w' = registry_inv w"
  by (simp add: registry_inv_def)

lemma registry_invD:
  assumes "registry_inv w" and "dialogs w i = Some h"
  shows "h < length (sessions w)" and "ID (sessions w ! h) = i"
    and "state (sessions w ! h) = DialogStateEstablished \<or>
         state (sessions w ! h) = DialogStateConfirmed"
  using assms unfolding registry_inv_def by blast+

lemma registry_invI:
  assumes "\<And>i h. dialogs w i = Some h \<Longrightarrow>
      h < length (sessions w) \<and> ID (sessions w ! h) = i \<and>
      (state (sessions w ! h) = DialogStateEstablished \<or>
       state (sessions w ! h) = DialogStateConfirmed)"
  shows "registry_inv w"
  using assms unfolding registry_inv_def by blast

lemma nth_update_state:
  "state (xs ! h) = st \<Longrightarrow> state (xs[k := (xs ! k)\<lparr>state := st\<rparr>] ! h) = st"
  by (cases "k < length xs") (auto simp: nth_list_update list_update_beyond)

text \<open>Ending a session, or not, and then deleting what the registry holds under its
  identity keeps the invariant.\<close>

lemma registry_inv_end_delete:
  assumes "registry_inv w"
    and "dialogs w' = (dialogs w)(ID (sessions w ! h) := None)"
    and "sessions w' = sessions w \<or>
         sessions w' = (sessions w)[h := (sessions w ! h)\<lparr>state := DialogStateEnded\<rparr>]"
  shows "registry_inv w'"
  unfolding registry_inv_def
proof (intro allI impI)
  fix i k assume d: "dialogs w' i = Some k"
  with assms(2) have ne: "i \<noteq> ID (sessions w ! h)" and dk: "dialogs w i = Some k"
    by (auto split: if_splits)
  from assms(1) dk have k: "k < length (sessions w)" "ID (sessions w ! k) = i"
    "state (sessions w ! k) = DialogStateEstablished \<or>
     state (sessions w ! k) = DialogStateConfirmed"
    by (auto simp: registry_inv_def)
  from k(2) ne have "k \<noteq> h" by auto
  with assms(3) have "sessions w' ! k = sessions w ! k" by auto
  moreover from assms(3) have "length (sessions w') = length (sessions w)" by auto
  ultimately show "k < length (sessions w') \<and> ID (sessions w' ! k) = i \<and>
     (state (sessions w' ! k) = DialogStateEstablished \<or>
      state (sessions w' ! k) = DialogStateConfirmed)"
    using k by simp
qed

lemma registry_inv_Delete: "registry_inv w \<Longrightarrow> registry_inv (Delete i w)"
  by (auto simp: registry_inv_def Delete_def emit_def split: if_splits)

lemma ReadAck_inv:
  assumes "registry_inv w"
  shows "registry_inv (snd (ReadAck lib req tx w))"
proof (cases "MakeDialogIDFromRequest lib req")
  case (Inl err)
  with assms show ?thesis by (simp add: ReadAck_def)
next
  case (Inr i)
  show ?thesis
  proof (cases "dialogs w i")
    case None
    with Inr assms show ?thesis by (simp add: ReadAck_def loadDialog_def)
  next
    case (Some dt)
    have w': "snd (ReadAck lib req tx w) = setState dt DialogStateConfirmed w"
      using Inr Some by (simp add: ReadAck_def loadDialog_def)
    show ?thesis
      unfolding w'
    proof (rule registry_invI)
      fix j k assume "dialogs (setState dt DialogStateConfirmed w) j = Some k"
      then have d: "dialogs w j = Some k" by (simp add: prim_defs)
      note k = registry_invD [OF assms d]
      show "k < length (sessions (setState dt DialogStateConfirmed w)) \<and>
            ID (sessions (setState dt DialogStateConfirmed w) ! k) = j \<and>
            (state (sessions (setState dt DialogStateConfirmed w) ! k) = DialogStateEstablished \<or>
             state (sessions (setState dt DialogStateConfirmed w) ! k) = DialogStateConfirmed)"
        using k by (cases "k = dt") (simp_all add: prim_defs)
    qed
  qed
qed

lemma ReadAck_ended:
  assumes "registry_inv w" and "state (sessions w ! h) = DialogStateEnded"
  shows "state (sessions (snd (ReadAck lib req tx w)) ! h) = DialogStateEnded"
proof (cases "MakeDialogIDFromRequest lib req")
  case (Inl err)
  with assms show ?thesis by (simp add: ReadAck_def)
next
  case (Inr i)
  show ?thesis
  proof (cases "dialogs w i")
    case None
    with Inr assms show ?thesis by (simp add: ReadAck_def loadDialog_def)
  next
    case (Some dt)
    from registry_invD(3) [OF assms(1) Some] assms(2) have "dt \<noteq> h" by auto
    then show ?thesis using Inr Some assms(2)
      by (simp add: ReadAck_def prim_defs)
  qed
qed

lemma ReadBye_inv:
  assumes "registry_inv w"
  shows "registry_inv (snd (ReadBye lib req tx r w))"
proof (cases "MakeDialogIDFromRequest lib req")
  case (Inl err)
  with assms show ?thesis by (simp add: ReadBye_def)
next
  case (Inr i)
  show ?thesis
  proof (cases "dialogs w i")
    case None
    with Inr assms show ?thesis by (simp add: ReadBye_def loadDialog_def)
  next
    case (Some dt)
    with assms have dt: "dt < length (sessions w)" "ID (sessions w ! dt) = i"
      by (auto simp: registry_inv_def)
    let ?w' = "snd (ReadBye lib req tx r w)"
    have "dialogs ?w' = (dialogs w)(ID (sessions w ! dt) := None) \<and>
          (sessions ?w' = sessions w \<or>
           sessions ?w' = (sessions w)[dt := (sessions w ! dt)\<lparr>state := DialogStateEnded\<rparr>])"
      using Inr Some dt
      by (cases r) (simp_all add: ReadBye_def Close_def Let_def prim_defs)
    with assms show ?thesis using registry_inv_end_delete by blast
  qed
qed

lemma ReadBye_ended:
  "state (sessions w ! h) = DialogStateEnded \<Longrightarrow>
   state (sessions (snd (ReadBye lib req tx r w)) ! h) = DialogStateEnded"
  by (auto simp: ReadBye_def Close_def Let_def prim_defs nth_update_state
      split: sum.splits option.splits)

lemma run_call_inv: "registry_inv w \<Longrightarrow> registry_inv (run_call lib w c)"
  by (cases c) (simp_all add: ReadAck_inv ReadBye_inv)

lemma run_call_ended:
  "registry_inv w \<Longrightarrow> state (sessions w ! h) = DialogStateEnded \<Longrightarrow>
   state (sessions (run_call lib w c) ! h) = DialogStateEnded"
  by (cases c) (simp_all add: ReadAck_ended ReadBye_ended)

lemma run_calls_inv: "registry_inv w \<Longrightarrow> registry_inv (run_calls lib w cs)"
  unfolding run_calls_def by (induction cs arbitrary: w) (simp_all add: run_call_inv)

lemma run_calls_ended:
  "registry_inv w \<Longrightarrow> state (sessions w ! h) = DialogStateEnded \<Longrightarrow>
   state (sessions (run_calls lib w cs) ! h) = DialogStateEnded"
  unfolding run_calls_def
  by (induction cs arbitrary: w) (simp_all add: run_call_inv run_call_ended)

lemma Close_inv: "registry_inv w \<Longrightarrow> registry_inv (snd (Close h w))"
  by (simp add: Close_def registry_inv_Delete)

lemma ReadInvite_inv:
  assumes "registry_inv w"
  shows "registry_inv (snd (ReadInvite req tx w))"
proof (cases "Contact req")
  case None
  with assms show ?thesis by (simp add: ReadInvite_def)
next
  case (Some cont)
  show ?thesis
  proof (rule registry_invI)
    fix i h assume "dialogs (snd (ReadInvite req tx w)) i = Some h"
    with Some have d: "dialogs w i = Some h" by (simp add: ReadInvite_def)
    note k = registry_invD [OF assms d]
    with Some show "h < length (sessions (snd (ReadInvite req tx w))) \<and>
        ID (sessions (snd (ReadInvite req tx w)) ! h) = i \<and>
        (state (sessions (snd (ReadInvite req tx w)) ! h) = DialogStateEstablished \<or>
         state (sessions (snd (ReadInvite req tx w)) ! h) = DialogStateConfirmed)"
      by (simp add: ReadInvite_def nth_append)
  qed
qed

lemma ReadInvite_ended:
  "h < length (sessions w) \<Longrightarrow>
   state (sessions (snd (ReadInvite req tx w)) ! h) = state (sessions w ! h)"
  by (auto simp: ReadInvite_def nth_append split: option.splits)

lemma WriteResponse_inv:
  assumes "registry_inv w"
    and "IsProvisional res0 \<or> length (sessions w) \<le> h \<or>
         state (sessions w ! h) = DialogStateInit"
  shows "registry_inv (snd (WriteResponse lib h res0 sel r w))"
proof (cases "length (sessions w) \<le> h")
  case True
  with assms(1) show ?thesis by (simp add: WriteResponse_def)
next
  case False
  then have h: "h < length (sessions w)" by simp
  have unreg: "state (sessions w ! h) = DialogStateInit \<Longrightarrow> dialogs w i \<noteq> Some h" for i
    using registry_invD(3) [OF assms(1), of i h] by auto
  show ?thesis
  proof (cases "IsProvisional res0")
    case True
    then have "\<not> IsSuccess res0" by (simp add: IsProvisional_def IsSuccess_def)
    with True assms(1) h show ?thesis
      by (auto simp: WriteResponse_def Let_def prim_defs registry_inv_def nth_list_update
          IsSuccess_append IsProvisional_append split: tx_select.splits)
  next
    case False
    with assms(2) h have init: "state (sessions w ! h) = DialogStateInit" by simp
    with assms(1) h unreg show ?thesis
      by (auto simp: WriteResponse_def Let_def prim_defs registry_inv_def nth_list_update
          split: tx_select.splits option.splits sum.splits if_splits)
  qed
qed

lemma WriteResponse_ended:
  assumes "IsProvisional res0 \<or> length (sessions w) \<le> h \<or>
         state (sessions w ! h) = DialogStateInit"
    and "k < length (sessions w)" and "state (sessions w ! k) = DialogStateEnded"
  shows "state (sessions (snd (WriteResponse lib h res0 sel r w)) ! k) = DialogStateEnded"
proof (cases "IsProvisional res0")
  case True
  then have "\<not> IsSuccess res0" by (simp add: IsProvisional_def IsSuccess_def)
  with True assms show ?thesis
    by (auto simp: WriteResponse_def Let_def prim_defs nth_list_update
          IsSuccess_append IsProvisional_append split: tx_select.splits)
next
  case False
  with assms show ?thesis
    by (auto simp: WriteResponse_def Let_def prim_defs nth_list_update
          split: tx_select.splits option.splits sum.splits if_splits)
qed

lemma wait_confirmed_inv:
  assumes "registry_inv w"
    and "wait_confirmed lib h w evs = Ready w1 \<or> wait_confirmed lib h w evs = Cancelled err w1 \<or>
         wait_confirmed lib h w evs = Blocked w1"
  shows "registry_inv w1"
    and "state (sessions w ! k) = DialogStateEnded \<Longrightarrow>
         state (sessions w1 ! k) = DialogStateEnded"
  using wait_confirmed_world [OF assms(2)] assms(1)
  by (auto simp: after_waits_def run_calls_inv run_calls_ended)

lemma send_bye_shape:
  assumes "send_bye lib h req res txr aw w1 = (ret, w2)"
  shows "dialogs w2 = dialogs w1 \<and>
         (sessions w2 = sessions w1 \<or>
          sessions w2 = (sessions w1)[h := (sessions w1 ! h)\<lparr>state := DialogStateEnded\<rparr>])"
  using assms
  by (cases aw)
    (auto simp: send_bye_def Let_def prim_defs split: sum.splits option.splits if_splits)

lemma sessions_bye_cleanup: "sessions (bye_cleanup h w) = sessions w"
  by (simp add: bye_cleanup_def Close_def prim_defs)

lemma Bye_inv:
  assumes "registry_inv w"
  shows "registry_inv (snd (Bye lib h waits txr aw w))"
proof (cases "h < length (sessions w) \<and> state (sessions w ! h) \<noteq> DialogStateEnded \<and>
    (\<exists>res. InviteResponse (sessions w ! h) = Some res \<and> IsSuccess res)")
  case False
  with assms show ?thesis by (auto simp: Bye_def split: option.splits)
next
  case True
  then obtain res where res: "h < length (sessions w)"
    "state (sessions w ! h) \<noteq> DialogStateEnded"
    "InviteResponse (sessions w ! h) = Some res" "IsSuccess res"
    by blast
  show ?thesis
  proof (cases "wait_confirmed lib h w waits")
    case (Blocked w1)
    with res have "snd (Bye lib h waits txr aw w) = w1" by (simp add: Bye_def)
    with wait_confirmed_inv(1) [OF assms, of lib h waits w1] Blocked show ?thesis by simp
  next
    case (Cancelled err w1)
    with res have "snd (Bye lib h waits txr aw w) = bye_cleanup h w1" by (simp add: Bye_def)
    moreover have "registry_inv w1"
      using wait_confirmed_inv(1) [OF assms, of lib h waits w1 err] Cancelled by simp
    then have "registry_inv (bye_cleanup h w1)"
      by (simp add: bye_cleanup_def Close_inv Terminate_def registry_inv_emit)
    ultimately show ?thesis by simp
  next
    case (Ready w1)
    obtain ret w2 where sb:
      "send_bye lib h (InviteRequest (sessions w ! h)) res txr aw w1 = (ret, w2)"
      by (cases "send_bye lib h (InviteRequest (sessions w ! h)) res txr aw w1") blast
    with res Ready have w': "snd (Bye lib h waits txr aw w) = bye_cleanup h w2"
      by (simp add: Bye_def)
    have i1: "registry_inv w1"
      using wait_confirmed_inv(1) [OF assms, of lib h waits w1] Ready by simp
    have l1: "length (sessions w1) = length (sessions w)"
      using wait_confirmed_frame(1) [of lib h w waits w1] Ready by simp
    note sh = send_bye_shape [OF sb]
    from sh have l2: "length (sessions w2) = length (sessions w1)" by auto
    from sh l1 res(1) have id2: "ID (sessions w2 ! h) = ID (sessions w1 ! h)" by auto
    have "dialogs (bye_cleanup h w2) = (dialogs w1)(ID (sessions w1 ! h) := None)"
      using sh l1 l2 res(1) id2 by (simp add: bye_cleanup_frame)
    moreover have "sessions (bye_cleanup h w2) = sessions w2"
      by (rule sessions_bye_cleanup)
    ultimately have "registry_inv (bye_cleanup h w2)"
      using registry_inv_end_delete [OF i1, of "bye_cleanup h w2" h] sh by auto
    with w' show ?thesis by simp
  qed
qed

lemma Bye_ended:
  assumes "registry_inv w" and "state (sessions w ! k) = DialogStateEnded"
  shows "state (sessions (snd (Bye lib h waits txr aw w)) ! k) = DialogStateEnded"
proof (cases "h < length (sessions w) \<and> state (sessions w ! h) \<noteq> DialogStateEnded \<and>
    (\<exists>res. InviteResponse (sessions w ! h) = Some res \<and> IsSuccess res)")
  case False
  with assms show ?thesis by (auto simp: Bye_def split: option.splits)
next
  case True
  then obtain res where res: "h < length (sessions w)"
    "state (sessions w ! h) \<noteq> DialogStateEnded"
    "InviteResponse (sessions w ! h) = Some res" "IsSuccess res"
    by blast
  show ?thesis
  proof (cases "wait_confirmed lib h w waits")
    case (Blocked w1)
    with res have "snd (Bye lib h waits txr aw w) = w1" by (simp add: Bye_def)
    with wait_confirmed_inv(2) [OF assms(1), of lib h waits w1 _ k] Blocked assms(2)
    show ?thesis by simp
  next
    case (Cancelled err w1)
    with res have "snd (Bye lib h waits txr aw w) = bye_cleanup h w1" by (simp add: Bye_def)
    with wait_confirmed_inv(2) [OF assms(1), of lib h waits w1 err k] Cancelled assms(2)
    show ?thesis by (simp add: sessions_bye_cleanup)
  next
    case (Ready w1)
    obtain ret w2 where sb:
      "send_bye lib h (InviteRequest (sessions w ! h)) res txr aw w1 = (ret, w2)"
      by (cases "send_bye lib h (InviteRequest (sessions w ! h)) res txr aw w1") blast
    with res Ready have w': "snd (Bye lib h waits txr aw w) = bye_cleanup h w2"
      by (simp add: Bye_def)
    have e1: "state (sessions w1 ! k) = DialogStateEnded"
      using wait_confirmed_inv(2) [OF assms(1), of lib h waits w1 _ k] Ready assms(2) by simp
    from send_bye_shape [OF sb] e1 have "state (sessions w2 ! k) = DialogStateEnded"
      by (auto simp: nth_update_state)
    with w' show ?thesis by (simp add: sessions_bye_cleanup)
  qed
qed

subsection \<open>Every allowed operation keeps the invariant and an ended session ended\<close>

lemma exec_inv: "registry_inv w \<Longrightarrow> op_allowed w opn \<Longrightarrow> registry_inv (exec lib w opn)"
  by (cases opn)
    (simp_all add: ReadInvite_inv ReadAck_inv ReadBye_inv Close_inv WriteResponse_inv Bye_inv)

lemma Close_sessions: "sessions (snd (Close h w)) = sessions w"
  by (simp add: Close_def prim_defs)

lemma exec_ended:
  assumes "registry_inv w" and "op_allowed w opn" and "k < length (sessions w)"
    and "state (sessions w ! k) = DialogStateEnded"
  shows "state (sessions (exec lib w opn) ! k) = DialogStateEnded"
  using assms
  by (cases opn)
    (simp_all add: ReadInvite_ended ReadAck_ended ReadBye_ended Close_sessions
      WriteResponse_ended Bye_ended)

lemma exec_length: "length (sessions w) \<le> length (sessions (exec lib w opn))"
proof (cases opn)
  case (OpBye h waits txr aw)
  show ?thesis
  proof (cases "h < length (sessions w) \<and> state (sessions w ! h) \<noteq> DialogStateEnded \<and>
      (\<exists>res. InviteResponse (sessions w ! h) = Some res \<and> IsSuccess res)")
    case False
    with OpBye show ?thesis by (auto simp: Bye_def split: option.splits)
  next
    case True
    then obtain res where res: "h < length (sessions w)"
      "state (sessions w ! h) \<noteq> DialogStateEnded"
      "InviteResponse (sessions w ! h) = Some res" "IsSuccess res"
      by blast
    show ?thesis
    proof (cases "wait_confirmed lib h w waits")
      case (Blocked w1)
      with res OpBye wait_confirmed_frame(1) [of lib h w waits w1] show ?thesis
        by (simp add: Bye_def)
    next
      case (Cancelled err w1)
      with res OpBye wait_confirmed_frame(1) [of lib h w waits w1 err] show ?thesis
        by (simp add: Bye_def sessions_bye_cleanup)
    next
      case (Ready w1)
      obtain ret w2 where sb:
        "send_bye lib h (InviteRequest (sessions w ! h)) res txr aw w1 = (ret, w2)"
        by (cases "send_bye lib h (InviteRequest (sessions w ! h)) res txr aw w1") blast
      from send_bye_shape [OF sb] have "length (sessions w2) = length (sessions w1)" by auto
      with sb res OpBye Ready wait_confirmed_frame(1) [of lib h w waits w1] show ?thesis
        by (simp add: Bye_def sessions_bye_cleanup)
    qed
  qed
qed (auto simp: ReadInvite_def ReadAck_frame ReadBye_frame Close_sessions
      WriteResponse_def Let_def prim_defs split: option.splits sum.splits tx_select.splits)

lemma run_Cons: "run lib w (opn # ops) = run lib (exec lib w opn) ops"
  by (simp add: run_def)

lemma run_append: "run lib w (ops @ later) = run lib (run lib w ops) later"
  by (simp add: run_def)

lemma run_allowed_append:
  "run_allowed lib w (ops @ later) =
     (run_allowed lib w ops \<and> run_allowed lib (run lib w ops) later)"
  by (induction ops arbitrary: w) (simp_all add: run_def)

lemma run_inv: "registry_inv w \<Longrightarrow> run_allowed lib w ops \<Longrightarrow> registry_inv (run lib w ops)"
proof (induction ops arbitrary: w)
  case Nil
  then show ?case by (simp add: run_def)
next
  case (Cons opn ops)
  then show ?case by (simp add: run_Cons exec_inv)
qed

lemma run_ended:
  "registry_inv w \<Longrightarrow> run_allowed lib w ops \<Longrightarrow> k < length (sessions w) \<Longrightarrow>
   state (sessions w ! k) = DialogStateEnded \<Longrightarrow>
   state (sessions (run lib w ops) ! k) = DialogStateEnded"
proof (induction ops arbitrary: w)
  case Nil
  then show ?case by (simp add: run_def)
next
  case (Cons opn ops)
  from Cons.prems have a: "op_allowed w opn" and b: "run_allowed lib (exec lib w opn) ops"
    by simp_all
  have "k < length (sessions (exec lib w opn))"
    using Cons.prems(3) exec_length [of w lib opn] by simp
  with Cons.IH [OF exec_inv [OF Cons.prems(1) a] b this
      exec_ended [OF Cons.prems(1) a Cons.prems(3,4)]]
  show ?case by (simp add: run_Cons)
qed

lemma registry_inv_NewDialogServer: "registry_inv (NewDialogServer c)"
  by (simp add: registry_inv_def NewDialogServer_def)

text \<open>
  Claim C4, as the code has it. In every sequence of operations on a new server in which
  a final response is written only to a session still in its initial state: whatever
  the registry holds under an identity is a session with that identity whose state is
  established or confirmed; and a session that is ended stays ended through every later
  operation and is not in the registry.
\<close>

theorem registry_invariant:
  assumes "run_allowed lib (NewDialogServer c) (ops @ later)"
  shows "registry_inv (run lib (NewDialogServer c) ops) \<and>
         (\<forall>h. h < length (sessions (run lib (NewDialogServer c) ops)) \<and>
              state (sessions (run lib (NewDialogServer c) ops) ! h) = DialogStateEnded \<longrightarrow>
              state (sessions (run lib (NewDialogServer c) (ops @ later)) ! h) = DialogStateEnded \<and>
              \<not> registered (run lib (NewDialogServer c) (ops @ later)) h)"
proof (intro conjI allI impI)
  let ?w0 = "NewDialogServer c"
  from assms have a: "run_allowed lib ?w0 ops" and b: "run_allowed lib (run lib ?w0 ops) later"
    by (simp_all add: run_allowed_append)
  show i: "registry_inv (run lib ?w0 ops)"
    using run_inv [OF registry_inv_NewDialogServer a] .
  fix h
  assume e: "h < length (sessions (run lib ?w0 ops)) \<and>
    state (sessions (run lib ?w0 ops) ! h) = DialogStateEnded"
  then show s: "state (sessions (run lib ?w0 (ops @ later)) ! h) = DialogStateEnded"
    using run_ended [OF i b] by (simp add: run_append)
  have "registry_inv (run lib ?w0 (ops @ later))"
    using run_inv [OF registry_inv_NewDialogServer assms] .
  with s show "\<not> registered (run lib ?w0 (ops @ later)) h"
    unfolding registered_def using registry_invD(3) by fastforce
qed

theorem registry_invariant_witness:
  "run_allowed std_sip (NewDialogServer bob_contact)
     ([OpReadInvite invite 7, OpWriteResponse 0 (answer 180) SelDefault None,
       OpWriteResponse 0 (answer 200) SelDefault None, OpReadAck (in_dialog ''ACK'') 8,
       OpReadBye (in_dialog ''BYE'') 9 None] @
      [OpReadAck (in_dialog ''ACK'') 8, OpWriteResponse 0 (answer 180) SelDefault None,
       OpClose 0]) \<and>
   registry_inv (run std_sip (NewDialogServer bob_contact)
     [OpReadInvite invite 7, OpWriteResponse 0 (answer 180) SelDefault None,
      OpWriteResponse 0 (answer 200) SelDefault None, OpReadAck (in_dialog ''ACK'') 8,
      OpReadBye (in_dialog ''BYE'') 9 None]) \<and>
   state (sessions (run std_sip (NewDialogServer bob_contact)
     [OpReadInvite invite 7, OpWriteResponse 0 (answer 180) SelDefault None,
      OpWriteResponse 0 (answer 200) SelDefault None, OpReadAck (in_dialog ''ACK'') 8,
      OpReadBye (in_dialog ''BYE'') 9 None]) ! 0) = DialogStateEnded \<and>
   state (sessions (run std_sip (NewDialogServer bob_contact)
     ([OpReadInvite invite 7, OpWriteResponse 0 (answer 180) SelDefault None,
       OpWriteResponse 0 (answer 200) SelDefault None, OpReadAck (in_dialog ''ACK'') 8,
       OpReadBye (in_dialog ''BYE'') 9 None] @
      [OpReadAck (in_dialog ''ACK'') 8, OpWriteResponse 0 (answer 180) SelDefault None,
       OpClose 0])) ! 0) = DialogStateEnded \<and>
   \<not> registered (run std_sip (NewDialogServer bob_contact)
     ([OpReadInvite invite 7, OpWriteResponse 0 (answer 180) SelDefault None,
       OpWriteResponse 0 (answer 200) SelDefault None, OpReadAck (in_dialog ''ACK'') 8,
       OpReadBye (in_dialog ''BYE'') 9 None] @
      [OpReadAck (in_dialog ''ACK'') 8, OpWriteResponse 0 (answer 180) SelDefault None,
       OpClose 0])) 0"
proof -
  let ?ops = "[OpReadInvite invite 7, OpWriteResponse 0 (answer 180) SelDefault None,
      OpWriteResponse 0 (answer 200) SelDefault None, OpReadAck (in_dialog ''ACK'') 8,
      OpReadBye (in_dialog ''BYE'') 9 None]"
  let ?later = "[OpReadAck (in_dialog ''ACK'') 8,
      OpWriteResponse 0 (answer 180) SelDefault None, OpClose 0]"
  have a: "run_allowed std_sip (NewDialogServer bob_contact) (?ops @ ?later)"
    by (simp add: op_defs prim_defs msg_defs fixture_defs Let_def)
  have b: "0 < length (sessions (run std_sip (NewDialogServer bob_contact) ?ops))"
    and c: "state (sessions (run std_sip (NewDialogServer bob_contact) ?ops) ! 0) =
       DialogStateEnded"
    by (simp_all add: op_defs prim_defs msg_defs fixture_defs Let_def)
  note t = registry_invariant [OF a]
  from t have d: "registry_inv (run std_sip (NewDialogServer bob_contact) ?ops)" by blast
  from t b c have e:
    "state (sessions (run std_sip (NewDialogServer bob_contact) (?ops @ ?later)) ! 0) =
       DialogStateEnded \<and>
     \<not> registered (run std_sip (NewDialogServer bob_contact) (?ops @ ?later)) 0"
    by blast
  from a c d e show ?thesis by blast
qed

text \<open>
  Against claim C4 as stated: a 404 ends the session and a 200 written afterwards makes
  it established again, whether the send of the 200 succeeds or fails; and a 404 written
  after a 200 ends the session while the registry still holds it.
\<close>

theorem ended_not_terminal_counterexample:
  "state (sessions (run std_sip server0
      [OpReadInvite invite 7, OpWriteResponse 0 (answer 404) SelDefault None]) ! 0) =
     DialogStateEnded \<and>
   state (sessions (run std_sip server0
      [OpReadInvite invite 7, OpWriteResponse 0 (answer 404) SelDefault None,
       OpWriteResponse 0 (answer 200) SelDefault None]) ! 0) = DialogStateEstablished \<and>
   state (sessions (run std_sip server0
      [OpReadInvite invite 7, OpWriteResponse 0 (answer 404) SelDefault None,
       OpWriteResponse 0 (answer 200) SelDefault (Some (External ''broken pipe''))]) ! 0) =
     DialogStateEstablished \<and>
   state (sessions (run std_sip server0
      [OpReadInvite invite 7, OpWriteResponse 0 (answer 200) SelDefault None,
       OpWriteResponse 0 (answer 404) SelDefault None]) ! 0) = DialogStateEnded \<and>
   dialogs (run std_sip server0
      [OpReadInvite invite 7, OpWriteResponse 0 (answer 200) SelDefault None,
       OpWriteResponse 0 (answer 404) SelDefault None]) ''c1__b1__a1'' = Some 0"
  by (simp add: op_defs prim_defs msg_defs fixture_defs Let_def)

section \<open>Further properties of the operations\<close>

text \<open>
  \<open>Bye\<close> on a session that is not ended and has no stored setup response (no response
  was ever written) calls \<open>IsSuccess\<close> on a nil response: a nil dereference, before
  anything is sent or deferred.
\<close>

theorem Bye_without_response:
  assumes "h < length (sessions w)"
    and "state (sessions w ! h) \<noteq> DialogStateEnded"
    and "InviteResponse (sessions w ! h) = None"
  shows "Bye lib h waits txr aw w = (Returned (Some NilDereference), w)"
  using assms by (simp add: Bye_def)

theorem Bye_without_response_witness:
  "0 < length (sessions invited0) \<and> state (sessions invited0 ! 0) \<noteq> DialogStateEnded \<and>
   InviteResponse (sessions invited0 ! 0) = None \<and>
   Bye std_sip 0 [InviteTxDone] (Inr 9) (GotResponse (answer 200)) invited0 =
     (Returned (Some NilDereference), invited0)"
proof -
  have a: "0 < length (sessions invited0)"
    and b: "state (sessions invited0 ! 0) \<noteq> DialogStateEnded"
    and c: "InviteResponse (sessions invited0 ! 0) = None"
    by (simp_all add: op_defs prim_defs msg_defs fixture_defs invited0_def Let_def)
  from Bye_without_response [OF a b c] a b c show ?thesis by simp
qed

text \<open>
  A provisional response is sent on the transaction and nothing else happens: the call
  returns what the send returned, and the registry, every state and every identity stay
  as they were.
\<close>

theorem WriteResponse_provisional:
  assumes "h < length (sessions w)"
    and "IsProvisional res0"
    and "WriteResponse lib h res0 SelDefault r w = (ret, w')"
  shows "ret = r \<and>
         trace w' = trace w @
           [Responded (inviteTx (sessions w ! h))
              (res_AppendHeader res0 (ContactHeader (contactHDR w))) r] \<and>
         dialogs w' = dialogs w \<and>
         map state (sessions w') = map state (sessions w) \<and>
         map ID (sessions w') = map ID (sessions w)"
proof -
  from assms(2) have "\<not> IsSuccess res0" by (simp add: IsProvisional_def IsSuccess_def)
  with assms show ?thesis
    by (auto simp: WriteResponse_def Let_def prim_defs map_update list_update_same_conv
        IsSuccess_append IsProvisional_append)
qed

theorem WriteResponse_provisional_witness:
  "0 < length (sessions invited0) \<and> IsProvisional (answer 180) \<and>
   fst (WriteResponse std_sip 0 (answer 180) SelDefault None invited0) = None \<and>
   trace (snd (WriteResponse std_sip 0 (answer 180) SelDefault None invited0)) =
     [Responded 7 (res_AppendHeader (answer 180) (ContactHeader bob_contact)) None] \<and>
   dialogs (snd (WriteResponse std_sip 0 (answer 180) SelDefault None invited0)) =
     Map.empty \<and>
   map state (sessions (snd (WriteResponse std_sip 0 (answer 180) SelDefault None invited0))) =
     [DialogStateInit]"
proof -
  have a: "0 < length (sessions invited0)"
    and b: "IsProvisional (answer 180)"
    and e: "trace invited0 = []" "inviteTx (sessions invited0 ! 0) = 7"
      "contactHDR invited0 = bob_contact" "dialogs invited0 = Map.empty"
      "map state (sessions invited0) = [DialogStateInit]"
    by (simp_all add: op_defs prim_defs msg_defs fixture_defs invited0_def Let_def)
  from WriteResponse_provisional [OF a b surjective_pairing, of std_sip None] a b e
  show ?thesis by simp
qed

text \<open>
  A final response that is not successful is sent on the transaction; when the send
  succeeds the state becomes ended. The registry is not touched either way.
\<close>

theorem WriteResponse_final_failure:
  assumes "h < length (sessions w)"
    and "\<not> IsSuccess res0" and "\<not> IsProvisional res0"
    and "WriteResponse lib h res0 SelDefault r w = (ret, w')"
  shows "ret = r \<and>
         trace w' = trace w @
           [Responded (inviteTx (sessions w ! h))
              (res_AppendHeader res0 (ContactHeader (contactHDR w))) r] @
           (case r of None \<Rightarrow> [StateSet h DialogStateEnded] | Some err \<Rightarrow> []) \<and>
         dialogs w' = dialogs w \<and>
         state (sessions w' ! h) =
           (case r of None \<Rightarrow> DialogStateEnded | Some err \<Rightarrow> state (sessions w ! h))"
  using assms
  by (cases r)
    (auto simp: WriteResponse_def Let_def prim_defs IsSuccess_append IsProvisional_append)

theorem WriteResponse_final_failure_witness:
  "0 < length (sessions invited0) \<and> \<not> IsSuccess (answer 486) \<and>
   \<not> IsProvisional (answer 486) \<and>
   fst (WriteResponse std_sip 0 (answer 486) SelDefault None invited0) = None \<and>
   trace (snd (WriteResponse std_sip 0 (answer 486) SelDefault None invited0)) =
     [Responded 7 (res_AppendHeader (answer 486) (ContactHeader bob_contact)) None,
      StateSet 0 DialogStateEnded] \<and>
   dialogs (snd (WriteResponse std_sip 0 (answer 486) SelDefault None invited0)) =
     Map.empty \<and>
   state (sessions (snd (WriteResponse std_sip 0 (answer 486) SelDefault None invited0)) ! 0) =
     DialogStateEnded"
proof -
  have a: "0 < length (sessions invited0)"
    and b: "\<not> IsSuccess (answer 486)" and c: "\<not> IsProvisional (answer 486)"
    and e: "trace invited0 = []" "inviteTx (sessions invited0 ! 0) = 7"
      "contactHDR invited0 = bob_contact" "dialogs invited0 = Map.empty"
    by (simp_all add: op_defs prim_defs msg_defs fixture_defs invited0_def Let_def)
  from WriteResponse_final_failure [OF a b c surjective_pairing, of std_sip None] a b c e
  show ?thesis by simp
qed

text \<open>
  \<open>ReadBye\<close> on a request whose identity is registered for a session carrying that
  identity: it answers 200 OK on the given transaction, sets the state to ended when the
  send succeeded, terminates the INVITE transaction and deletes the registry entry, in
  this order, and returns what the send returned.
\<close>

theorem ReadBye_matched:
  assumes "MakeDialogIDFromRequest lib req = Inr i"
    and "loadDialog w i = Some dt"
    and "dt < length (sessions w)"
    and "ID (sessions w ! dt) = i"
    and "ReadBye lib req tx r w = (ret, w')"
  shows "ret = r \<and>
         trace w' = trace w @
           [Responded tx (NewResponseFromRequest lib req 200 ''OK'' None) r] @
           (case r of None \<Rightarrow> [StateSet dt DialogStateEnded] | Some err \<Rightarrow> []) @
           [Terminated (inviteTx (sessions w ! dt)), Deleted i] \<and>
         loadDialog w' i = None \<and>
         state (sessions w' ! dt) =
           (case r of None \<Rightarrow> DialogStateEnded | Some err \<Rightarrow> state (sessions w ! dt))"
  using assms
  by (cases r) (auto simp: ReadBye_def Close_def Let_def prim_defs)

theorem ReadBye_matched_witness:
  "MakeDialogIDFromRequest std_sip (in_dialog ''BYE'') = Inr ''c1__b1__a1'' \<and>
   loadDialog confirmed0 ''c1__b1__a1'' = Some 0 \<and>
   0 < length (sessions confirmed0) \<and> ID (sessions confirmed0 ! 0) = ''c1__b1__a1'' \<and>
   fst (ReadBye std_sip (in_dialog ''BYE'') 9 None confirmed0) = None \<and>
   loadDialog (snd (ReadBye std_sip (in_dialog ''BYE'') 9 None confirmed0)) ''c1__b1__a1'' =
     None \<and>
   state (sessions (snd (ReadBye std_sip (in_dialog ''BYE'') 9 None confirmed0)) ! 0) =
     DialogStateEnded \<and>
   fst (ReadBye std_sip (in_dialog ''BYE'') 10 None
     (snd (ReadBye std_sip (in_dialog ''BYE'') 9 None confirmed0))) =
     Some ErrDialogDoesNotExists"
proof -
  have a: "MakeDialogIDFromRequest std_sip (in_dialog ''BYE'') = Inr ''c1__b1__a1''"
    and b: "loadDialog confirmed0 ''c1__b1__a1'' = Some 0"
    and c: "0 < length (sessions confirmed0)"
    and d: "ID (sessions confirmed0 ! 0) = ''c1__b1__a1''"
    by (simp_all add: op_defs prim_defs msg_defs fixture_defs confirmed0_def Let_def)
  note t = ReadBye_matched [OF a b c d surjective_pairing, of 9 None]
  have e: "fst (ReadBye std_sip (in_dialog ''BYE'') 10 None
     (snd (ReadBye std_sip (in_dialog ''BYE'') 9 None confirmed0))) =
     Some ErrDialogDoesNotExists"
    using t a by (simp add: ReadBye_def)
  from t a b c d e show ?thesis by simp
qed

end
